theory Spec2Isabelle
  imports Complex_Main "HOL-Library.Monad_Syntax"
begin

section \<open>The graph labeling problem of dlib's structural SVM\<close>

text \<open>
  This theory embeds \<^verbatim>\<open>dlib/svm/structural_svm_graph_labeling_problem.h\<close>:
  the validator \<^verbatim>\<open>is_graph_labeling_problem\<close>, the constructor of
  \<^verbatim>\<open>structural_svm_graph_labeling_problem\<close>, the dense and the sparse
  \<^verbatim>\<open>get_joint_feature_vector\<close> and \<^verbatim>\<open>separation_oracle\<close>.

  Conventions of the embedding.
  \<^item> A \<^verbatim>\<open>double\<close> is a \<^typ>\<open>real\<close>: arithmetic is exact, rounding is not modelled.
  \<^item> A \<^verbatim>\<open>long\<close> is an \<^typ>\<open>int\<close>, an \<^verbatim>\<open>unsigned long\<close> a \<^typ>\<open>nat\<close>;
    container sizes stay far below \<open>2^63\<close>, so no wrap-around is written out.
  \<^item> A function whose C++ original would read out of range or break the
    \<^verbatim>\<open>requires\<close> clause of a dlib routine returns \<open>None\<close>.
  \<^item> \<^verbatim>\<open>node_label\<close> is declared outside this file, which only compares labels with
    \<open>0\<close>; the label type is a type parameter \<open>'l\<close> of sort \<open>zero\<close>.
\<close>

subsection \<open>The graph container, as the code observes it\<close>

text \<open>
  Modelled from the spec: the graph container (\<^verbatim>\<open>dlib/graph.h\<close>) is a collaborator; it
  "exposes node count, per-node feature vector, per-node neighbor count, per-neighbor
  edge feature vector, and the neighbor's node index". A node is its \<^verbatim>\<open>data\<close> and the
  list of its neighbours: entry \<open>n\<close> of \<open>nbrs\<close> is the pair of
  \<^verbatim>\<open>neighbor(n).index()\<close> and \<^verbatim>\<open>edge(n)\<close>. A graph is the list of its nodes,
  node \<open>i\<close> at position \<open>i\<close>.
\<close>

record ('n, 'e) node =
  data :: 'n
  nbrs :: "(nat \<times> 'e) list"

type_synonym ('n, 'e) graph = "('n, 'e) node list"

definition number_of_nodes :: "('n, 'e) graph \<Rightarrow> nat" where
  "number_of_nodes g = length g"

definition nth_opt :: "'a list \<Rightarrow> nat \<Rightarrow> 'a option" where
  "nth_opt xs i = (if i < length xs then Some (xs ! i) else None)"

text \<open>
  Modelled from the spec: \<^verbatim>\<open>graph_contains_length_one_cycle\<close> (\<^verbatim>\<open>dlib/graph_utils\<close>)
  holds when some node has "an edge to itself", a "self-referencing edge".
\<close>

fun has_self_edge :: "nat \<Rightarrow> ('n, 'e) node list \<Rightarrow> bool" where
  "has_self_edge i [] = False"
| "has_self_edge i (x # xs) = (i \<in> set (map fst (nbrs x)) \<or> has_self_edge (Suc i) xs)"

definition graph_contains_length_one_cycle :: "('n, 'e) graph \<Rightarrow> bool" where
  "graph_contains_length_one_cycle g = has_self_edge 0 g"

text \<open>
  Modelled from the spec: \<^verbatim>\<open>is_learning_problem\<close> (\<^verbatim>\<open>dlib/svm/svm.h\<close>) fails when "the
  two sequences differ in length or any learning-problem precondition fails"; dlib's
  precondition is that the dataset is not empty.
\<close>

definition is_learning_problem :: "'a list \<Rightarrow> 'b list \<Rightarrow> bool" where
  "is_learning_problem xs ys = (length xs = length ys \<and> 0 < length xs)"

subsection \<open>The two vector representations\<close>

text \<open>
  The code is a template over \<^verbatim>\<open>graph_type\<close>, whose node and edge vectors are either
  both \<^verbatim>\<open>dlib::matrix\<close> column vectors or both sparse vectors. The operations of dlib
  that the template uses on them are the fields of a record; \<open>ismat\<close> is
  \<^verbatim>\<open>is_matrix<typename graph_type::type>::value\<close>.
\<close>

record ('n, 'e) vec_ops =
  ismat :: bool
  node_size :: "'n \<Rightarrow> nat"
  edge_size :: "'e \<Rightarrow> nat"
  edge_min :: "'e \<Rightarrow> real"
  node_max_index_plus_one :: "'n \<Rightarrow> nat"
  edge_max_index_plus_one :: "'e \<Rightarrow> nat"
  node_dot :: "real list \<Rightarrow> 'n \<Rightarrow> real option"
  edge_dot :: "real list \<Rightarrow> 'e \<Rightarrow> real option"

type_synonym dense_vector = "real list"
type_synonym sparse_vector = "(nat \<times> real) list"

text \<open>
  Modelled from the spec: the helpers of \<^verbatim>\<open>dlib/matrix.h\<close> and
  \<^verbatim>\<open>dlib/svm/sparse_vector.h\<close>. A dense vector is the list of its entries, a sparse
  vector a list of index-value pairs in which an index may repeat ("duplicates summed").
  \<^verbatim>\<open>min\<close> of a matrix needs a non-empty matrix; \<^verbatim>\<open>min\<close> of a sparse vector starts from
  the implicit entry \<open>0\<close>. \<^verbatim>\<open>max_index_plus_one\<close> is the size of a dense vector and "one
  plus the maximum feature index observed" of a sparse one, \<open>0\<close> when it has no entry.
  \<^verbatim>\<open>dot\<close> of two matrices needs equal sizes; \<^verbatim>\<open>dot\<close> of a matrix and a sparse vector
  reads the matrix at every index of the sparse vector.
\<close>

definition min_dense :: "dense_vector \<Rightarrow> real" where
  "min_dense v = (case v of [] \<Rightarrow> 0 | x # xs \<Rightarrow> fold min xs x)"

definition min_sparse :: "sparse_vector \<Rightarrow> real" where
  "min_sparse v = fold (\<lambda>(k, x) temp. if temp > x then x else temp) v 0"

definition max_index_plus_one_sparse :: "sparse_vector \<Rightarrow> nat" where
  "max_index_plus_one_sparse v = fold (\<lambda>(k, x) m. max m (Suc k)) v 0"

definition dot_dense :: "real list \<Rightarrow> dense_vector \<Rightarrow> real option" where
  "dot_dense m1 m2 =
     (if length m1 = length m2 then Some (sum_list (map2 (*) m1 m2)) else None)"

definition dot_sparse :: "real list \<Rightarrow> sparse_vector \<Rightarrow> real option" where
  "dot_sparse m v =
     (if list_all (\<lambda>(k, x). k < length m) v
      then Some (sum_list (map (\<lambda>(k, x). m ! k * x) v)) else None)"

definition dense_ops :: "(dense_vector, dense_vector) vec_ops" where
  "dense_ops = \<lparr> ismat = True, node_size = length, edge_size = length,
     edge_min = min_dense,
     node_max_index_plus_one = length, edge_max_index_plus_one = length,
     node_dot = dot_dense, edge_dot = dot_dense \<rparr>"

definition sparse_ops :: "(sparse_vector, sparse_vector) vec_ops" where
  "sparse_ops = \<lparr> ismat = False, node_size = length, edge_size = length,
     edge_min = min_sparse,
     node_max_index_plus_one = max_index_plus_one_sparse,
     edge_max_index_plus_one = max_index_plus_one_sparse,
     node_dot = dot_sparse, edge_dot = dot_sparse \<rparr>"

subsection \<open>\<^verbatim>\<open>is_graph_labeling_problem\<close>\<close>

text \<open>
  The three nested loops. The loop state is the pair of \<^verbatim>\<open>node_dims\<close> and
  \<^verbatim>\<open>edge_dims\<close>, both \<open>-1\<close> until assigned; \<open>None\<close> is the early \<^verbatim>\<open>return false\<close>.
\<close>

fun check_edges :: "('n, 'e) vec_ops \<Rightarrow> (nat \<times> 'e) list \<Rightarrow> int \<Rightarrow> int option" where
  "check_edges r [] edge_dims = Some edge_dims"
| "check_edges r ((j, e) # es) edge_dims =
     (if ismat r \<and> edge_size r e = 0 then None
      else if edge_min r e < 0 then None
      else let edge_dims' = (if ismat r \<and> edge_dims = -1 then int (edge_size r e)
                             else edge_dims)
           in if ismat r \<and> int (edge_size r e) \<noteq> edge_dims' then None
              else check_edges r es edge_dims')"

fun check_nodes ::
  "('n, 'e) vec_ops \<Rightarrow> ('n, 'e) node list \<Rightarrow> int \<times> int \<Rightarrow> (int \<times> int) option" where
  "check_nodes r [] st = Some st"
| "check_nodes r (x # xs) (node_dims, edge_dims) =
     (if node_size r (data x) = 0 then None
      else let node_dims' = (if ismat r \<and> node_dims = -1 then int (node_size r (data x))
                             else node_dims)
           in if ismat r \<and> int (node_size r (data x)) \<noteq> node_dims' then None
              else (case check_edges r (nbrs x) edge_dims of
                      None \<Rightarrow> None
                    | Some edge_dims' \<Rightarrow> check_nodes r xs (node_dims', edge_dims')))"

fun check_samples ::
  "('n, 'e) vec_ops \<Rightarrow> (('n, 'e) graph \<times> 'l list) list \<Rightarrow> int \<times> int \<Rightarrow> (int \<times> int) option"
  where
  "check_samples r [] st = Some st"
| "check_samples r ((s, l) # rest) st =
     (if number_of_nodes s \<noteq> length l then None
      else if graph_contains_length_one_cycle s then None
      else (case check_nodes r s st of
              None \<Rightarrow> None
            | Some st' \<Rightarrow> check_samples r rest st'))"

text \<open>
  After \<^verbatim>\<open>is_learning_problem\<close> the two sequences have the same length, so the loop
  over \<open>i\<close> reading \<^verbatim>\<open>samples[i]\<close> and \<^verbatim>\<open>labels[i]\<close> is a loop over the zipped lists.
\<close>

definition is_graph_labeling_problem ::
  "('n, 'e) vec_ops \<Rightarrow> ('n, 'e) graph list \<Rightarrow> 'l list list \<Rightarrow> bool" where
  "is_graph_labeling_problem r samples labels =
     (if \<not> is_learning_problem samples labels then False
      else check_samples r (zip samples labels) (-1, -1) \<noteq> None)"

subsection \<open>The problem object and its constructor\<close>

record ('n, 'e, 'l) problem =
  samples :: "('n, 'e) graph list"
  labels :: "'l list list"
  node_dims :: int
  edge_dims :: int

fun dims_edges :: "('n, 'e) vec_ops \<Rightarrow> (nat \<times> 'e) list \<Rightarrow> int \<Rightarrow> int" where
  "dims_edges r [] ed = ed"
| "dims_edges r ((j, e) # es) ed =
     dims_edges r es (max ed (int (edge_max_index_plus_one r e)))"

fun dims_nodes :: "('n, 'e) vec_ops \<Rightarrow> ('n, 'e) node list \<Rightarrow> int \<times> int \<Rightarrow> int \<times> int" where
  "dims_nodes r [] st = st"
| "dims_nodes r (x # xs) (nd, ed) =
     dims_nodes r xs (max nd (int (node_max_index_plus_one r (data x))),
                      dims_edges r (nbrs x) ed)"

fun dims_samples :: "('n, 'e) vec_ops \<Rightarrow> ('n, 'e) graph list \<Rightarrow> int \<times> int \<Rightarrow> int \<times> int" where
  "dims_samples r [] st = st"
| "dims_samples r (s # ss) st = dims_samples r ss (dims_nodes r s st)"

text \<open>
  The constructor. \<^verbatim>\<open>DLIB_ASSERT\<close> ends the program on an invalid dataset
  ("construction fails fatally"): \<open>None\<close>.
\<close>

definition structural_svm_graph_labeling_problem ::
  "('n, 'e) vec_ops \<Rightarrow> ('n, 'e) graph list \<Rightarrow> 'l list list \<Rightarrow> ('n, 'e, 'l) problem option"
  where
  "structural_svm_graph_labeling_problem r samples_in labels_in =
     (if \<not> is_graph_labeling_problem r samples_in labels_in then None
      else case dims_samples r samples_in (0, 0) of
             (nd, ed) \<Rightarrow> Some \<lparr> samples = samples_in, labels = labels_in,
                               node_dims = nd, edge_dims = ed \<rparr>)"

definition get_num_edge_weights :: "('n, 'e, 'l) problem \<Rightarrow> int" where
  "get_num_edge_weights p = edge_dims p"

definition get_num_dimensions :: "('n, 'e, 'l) problem \<Rightarrow> int" where
  "get_num_dimensions p = edge_dims p + node_dims p"

definition get_num_samples :: "('n, 'e, 'l) problem \<Rightarrow> nat" where
  "get_num_samples p = length (samples p)"

subsection \<open>Row ranges of a column vector\<close>

text \<open>
  Modelled from the spec: \<^verbatim>\<open>range\<close>, \<^verbatim>\<open>rowm\<close> and \<^verbatim>\<open>set_rowm\<close> of \<^verbatim>\<open>dlib/matrix.h\<close>
  address the "edge-weight block \<open>[0, edge_dims)\<close>" and the "node-weight block
  \<open>[edge_dims, edge_dims+node_dims)\<close>". \<^verbatim>\<open>range(b, e)\<close> counts from \<open>b\<close> to \<open>e\<close>, upwards
  or downwards, so it is never empty; \<^verbatim>\<open>rowm\<close> and \<^verbatim>\<open>set_rowm\<close> need every row inside
  the vector, and an assignment or a sum needs equal sizes.
\<close>

definition range_exp :: "int \<Rightarrow> int \<Rightarrow> int list" where
  "range_exp b e = (if b \<le> e then [b..e] else rev [e..b])"

definition rows_ok :: "real list \<Rightarrow> int list \<Rightarrow> bool" where
  "rows_ok m rows = list_all (\<lambda>r. 0 \<le> r \<and> r < int (length m)) rows"

definition rowm :: "real list \<Rightarrow> int list \<Rightarrow> real list option" where
  "rowm m rows = (if rows_ok m rows then Some (map (\<lambda>r. m ! nat r) rows) else None)"

definition set_rowm :: "real list \<Rightarrow> int list \<Rightarrow> real list \<Rightarrow> real list option" where
  "set_rowm m rows v =
     (if rows_ok m rows \<and> length v = length rows
      then Some (fold (\<lambda>(r, x) m'. m'[nat r := x]) (zip rows v) m) else None)"

definition mat_add :: "real list \<Rightarrow> real list \<Rightarrow> real list option" where
  "mat_add a b = (if length a = length b then Some (map2 (+) a b) else None)"

definition mat_sub :: "real list \<Rightarrow> real list \<Rightarrow> real list option" where
  "mat_sub a b = (if length a = length b then Some (map2 (-) a b) else None)"

definition set_size :: "int \<Rightarrow> real list option" where
  "set_size n = (if n < 0 then None else Some (replicate (nat n) 0))"

subsection \<open>\<^verbatim>\<open>get_joint_feature_vector\<close>, dense\<close>

fun joint_dense_edges ::
  "('n, dense_vector, 'l) problem \<Rightarrow> ('l::zero) list \<Rightarrow> nat \<Rightarrow> bool
     \<Rightarrow> (nat \<times> dense_vector) list \<Rightarrow> real list \<Rightarrow> real list option" where
  "joint_dense_edges p label i label_i [] psi = Some psi"
| "joint_dense_edges p label i label_i ((j, e) # es) psi =
     do {
       lj \<leftarrow> nth_opt label j;
       psi' \<leftarrow> (if i < j \<and> label_i \<noteq> (lj \<noteq> 0)
                then do {
                  cur \<leftarrow> rowm psi (range_exp 0 (edge_dims p - 1));
                  new \<leftarrow> mat_sub cur e;
                  set_rowm psi (range_exp 0 (edge_dims p - 1)) new }
                else Some psi);
       joint_dense_edges p label i label_i es psi'
     }"

fun joint_dense_nodes ::
  "(dense_vector, dense_vector, 'l) problem \<Rightarrow> ('l::zero) list \<Rightarrow> nat
     \<Rightarrow> (dense_vector, dense_vector) node list \<Rightarrow> real list \<Rightarrow> real list option" where
  "joint_dense_nodes p label i [] psi = Some psi"
| "joint_dense_nodes p label i (x # xs) psi =
     do {
       li \<leftarrow> nth_opt label i;
       psi1 \<leftarrow> (if li \<noteq> 0
                then do {
                  cur \<leftarrow> rowm psi (range_exp (edge_dims p) (int (length psi) - 1));
                  new \<leftarrow> mat_add cur (data x);
                  set_rowm psi (range_exp (edge_dims p) (int (length psi) - 1)) new }
                else Some psi);
       psi2 \<leftarrow> joint_dense_edges p label i (li \<noteq> 0) (nbrs x) psi1;
       joint_dense_nodes p label (Suc i) xs psi2
     }"

definition get_joint_feature_vector_dense ::
  "(dense_vector, dense_vector, 'l) problem \<Rightarrow> (dense_vector, dense_vector) graph
     \<Rightarrow> ('l::zero) list \<Rightarrow> real list option" where
  "get_joint_feature_vector_dense p sample label =
     do {
       psi \<leftarrow> set_size (get_num_dimensions p);
       joint_dense_nodes p label 0 sample psi
     }"

subsection \<open>\<^verbatim>\<open>get_joint_feature_vector\<close>, sparse\<close>

text \<open>
  \<^verbatim>\<open>psi.insert(psi.end(), ...)\<close> appends one pair; the \<^verbatim>\<open>long\<close> \<^verbatim>\<open>edge_dims\<close> is
  passed as the \<^verbatim>\<open>unsigned long\<close> offset.
\<close>

definition add_to_sparse_vect :: "sparse_vector \<Rightarrow> sparse_vector \<Rightarrow> nat \<Rightarrow> sparse_vector" where
  "add_to_sparse_vect psi vect offset = fold (\<lambda>(k, x) psi'. psi' @ [(k + offset, x)]) vect psi"

definition subtract_from_sparse_vect :: "sparse_vector \<Rightarrow> sparse_vector \<Rightarrow> sparse_vector" where
  "subtract_from_sparse_vect psi vect = fold (\<lambda>(k, x) psi'. psi' @ [(k, - x)]) vect psi"

fun joint_sparse_edges ::
  "('l::zero) list \<Rightarrow> nat \<Rightarrow> bool \<Rightarrow> (nat \<times> sparse_vector) list \<Rightarrow> sparse_vector
     \<Rightarrow> sparse_vector option" where
  "joint_sparse_edges label i label_i [] psi = Some psi"
| "joint_sparse_edges label i label_i ((j, e) # es) psi =
     do {
       lj \<leftarrow> nth_opt label j;
       joint_sparse_edges label i label_i es
         (if i < j \<and> label_i \<noteq> (lj \<noteq> 0) then subtract_from_sparse_vect psi e else psi)
     }"

fun joint_sparse_nodes ::
  "(sparse_vector, sparse_vector, 'l) problem \<Rightarrow> ('l::zero) list \<Rightarrow> nat
     \<Rightarrow> (sparse_vector, sparse_vector) node list \<Rightarrow> sparse_vector \<Rightarrow> sparse_vector option"
  where
  "joint_sparse_nodes p label i [] psi = Some psi"
| "joint_sparse_nodes p label i (x # xs) psi =
     do {
       li \<leftarrow> nth_opt label i;
       psi2 \<leftarrow> joint_sparse_edges label i (li \<noteq> 0) (nbrs x)
                 (if li \<noteq> 0 then add_to_sparse_vect psi (data x) (nat (edge_dims p)) else psi);
       joint_sparse_nodes p label (Suc i) xs psi2
     }"

definition get_joint_feature_vector_sparse ::
  "(sparse_vector, sparse_vector, 'l) problem \<Rightarrow> (sparse_vector, sparse_vector) graph
     \<Rightarrow> ('l::zero) list \<Rightarrow> sparse_vector option" where
  "get_joint_feature_vector_sparse p sample label = joint_sparse_nodes p label 0 sample []"

subsection \<open>\<^verbatim>\<open>separation_oracle\<close>\<close>

text \<open>
  Modelled from the spec: \<^verbatim>\<open>copy_graph_structure\<close> builds "an auxiliary weighted graph
  isomorphic in structure to \<open>sample\<close> (same nodes, same edges)". The Potts graph \<open>g\<close> is
  therefore built node by node along the sample. Its node payload is the potential; its
  edge payload, seen from node \<open>i\<close> towards neighbour \<open>j\<close>, is the weight the loop assigns
  when \<open>i < j\<close> and \<open>None\<close> when the loop assigns nothing through this side of the edge.
\<close>

type_synonym potts_graph = "(real, real option) graph"

fun potts_edges ::
  "('n, 'e) vec_ops \<Rightarrow> ('n, 'e, 'l) problem \<Rightarrow> real list \<Rightarrow> nat \<Rightarrow> (nat \<times> 'e) list
     \<Rightarrow> (nat \<times> real option) list option" where
  "potts_edges r p current_solution i [] = Some []"
| "potts_edges r p current_solution i ((j, e) # es) =
     do {
       x \<leftarrow> (if i < j
              then do {
                wb \<leftarrow> rowm current_solution (range_exp 0 (edge_dims p - 1));
                d \<leftarrow> edge_dot r wb e;
                Some (Some d) }
              else Some None);
       rest \<leftarrow> potts_edges r p current_solution i es;
       Some ((j, x) # rest)
     }"

fun potts_nodes ::
  "('n, 'e) vec_ops \<Rightarrow> ('n, 'e, 'l) problem \<Rightarrow> real list \<Rightarrow> ('l::zero) list \<Rightarrow> nat
     \<Rightarrow> ('n, 'e) node list \<Rightarrow> potts_graph option" where
  "potts_nodes r p current_solution truth i [] = Some []"
| "potts_nodes r p current_solution truth i (x # xs) =
     do {
       wb \<leftarrow> rowm current_solution
               (range_exp (edge_dims p) (int (length current_solution) - 1));
       d \<leftarrow> node_dot r wb (data x);
       li \<leftarrow> nth_opt truth i;
       es \<leftarrow> potts_edges r p current_solution i (nbrs x);
       rest \<leftarrow> potts_nodes r p current_solution truth (Suc i) xs;
       Some (\<lparr> data = (if li \<noteq> 0 then d - 1 else d + 1), nbrs = es \<rparr> # rest)
     }"

text \<open>The loop that figures out the loss; \<open>i\<close> is the index of the head of the labeling.\<close>

fun figure_out_loss :: "('l::zero) list \<Rightarrow> nat \<Rightarrow> ('l::zero) list \<Rightarrow> real \<Rightarrow> real option" where
  "figure_out_loss truth i [] loss = Some loss"
| "figure_out_loss truth i (pl # rest) loss =
     do {
       tr \<leftarrow> nth_opt truth i;
       figure_out_loss truth (Suc i) rest
         (if (tr \<noteq> 0) \<noteq> (pl \<noteq> 0) then loss + 1 else loss)
     }"

definition at_long :: "'a list \<Rightarrow> int \<Rightarrow> 'a option" where
  "at_long xs idx = (if 0 \<le> idx \<and> idx < int (length xs) then Some (xs ! nat idx) else None)"

text \<open>
  \<^verbatim>\<open>find_max_factor_graph_potts\<close> is the external MAP solver: a parameter \<open>solver\<close>.
  The member function is a template instance; \<open>r\<close> carries the vector operations and
  \<open>joint\<close> is the overload of \<^verbatim>\<open>get_joint_feature_vector\<close> that \<^verbatim>\<open>enable_if\<close> selects.
  The code reads \<^verbatim>\<open>labels[idx][i]\<close> inside its loops; the embedding reads \<^verbatim>\<open>labels[idx]\<close>
  once, before them. The constructor accepts only datasets with as many label vectors as
  samples, so the two agree on every problem it builds.
\<close>

definition separation_oracle ::
  "('n, 'e) vec_ops
     \<Rightarrow> (('n, 'e, 'l) problem \<Rightarrow> ('n, 'e) graph \<Rightarrow> ('l::zero) list \<Rightarrow> 'psi option)
     \<Rightarrow> (potts_graph \<Rightarrow> 'l list)
     \<Rightarrow> ('n, 'e, 'l) problem \<Rightarrow> int \<Rightarrow> real list \<Rightarrow> (real \<times> 'psi) option" where
  "separation_oracle r joint solver p idx current_solution =
     do {
       samp \<leftarrow> at_long (samples p) idx;
       truth \<leftarrow> at_long (labels p) idx;
       g \<leftarrow> potts_nodes r p current_solution truth 0 samp;
       let labeling = solver g;
       loss \<leftarrow> figure_out_loss truth 0 labeling 0;
       psi \<leftarrow> joint p samp labeling;
       Some (loss, psi)
     }"

definition separation_oracle_dense ::
  "(potts_graph \<Rightarrow> 'l list) \<Rightarrow> (dense_vector, dense_vector, 'l::zero) problem \<Rightarrow> int
     \<Rightarrow> real list \<Rightarrow> (real \<times> real list) option" where
  "separation_oracle_dense = separation_oracle dense_ops get_joint_feature_vector_dense"

definition separation_oracle_sparse ::
  "(potts_graph \<Rightarrow> 'l list) \<Rightarrow> (sparse_vector, sparse_vector, 'l::zero) problem \<Rightarrow> int
     \<Rightarrow> real list \<Rightarrow> (real \<times> sparse_vector) option" where
  "separation_oracle_sparse = separation_oracle sparse_ops get_joint_feature_vector_sparse"

definition get_truth_joint_feature_vector_dense ::
  "(dense_vector, dense_vector, 'l::zero) problem \<Rightarrow> int \<Rightarrow> real list option" where
  "get_truth_joint_feature_vector_dense p idx =
     do {
       samp \<leftarrow> at_long (samples p) idx;
       truth \<leftarrow> at_long (labels p) idx;
       get_joint_feature_vector_dense p samp truth
     }"

subsection \<open>Scenario A\<close>

definition scenario_A :: "(dense_vector, dense_vector) graph" where
  "scenario_A =
     [\<lparr> data = [1, 0], nbrs = [(1, [1])] \<rparr>,
      \<lparr> data = [1, 0], nbrs = [(0, [1]), (2, [1])] \<rparr>,
      \<lparr> data = [1, 0], nbrs = [(1, [1])] \<rparr>]"

definition scenario_A_labels :: "nat list" where
  "scenario_A_labels = [1, 1, 0]"

definition scenario_A_problem :: "(dense_vector, dense_vector, nat) problem" where
  "scenario_A_problem = \<lparr> samples = [scenario_A], labels = [scenario_A_labels],
     node_dims = 2, edge_dims = 1 \<rparr>"

subsection \<open>The Hamming distance of two labelings\<close>

text \<open>
  The labelings are compared as truth values: a label is true when it is not \<open>0\<close>.
\<close>

definition disagree :: "('l::zero) list \<Rightarrow> 'l list \<Rightarrow> nat \<Rightarrow> bool" where
  "disagree truth labeling i = ((truth ! i \<noteq> 0) \<noteq> (labeling ! i \<noteq> 0))"

definition hamming_distance :: "('l::zero) list \<Rightarrow> 'l list \<Rightarrow> nat" where
  "hamming_distance truth labeling =
     length (filter (disagree truth labeling) [0..<length labeling])"

subsection \<open>The invariant of the graph container\<close>

text \<open>
  Modelled from the spec: the graph container hands out "the neighbor's node index"; an
  index it hands out is the index of a node of the same graph.
\<close>

definition neighbors_in_range :: "('n, 'e) graph \<Rightarrow> bool" where
  "neighbors_in_range g = list_all (\<lambda>x. list_all (\<lambda>(j, e). j < length g) (nbrs x)) g"

subsection \<open>Labels as truth values\<close>

text \<open>The truth value of a label, as every \<^verbatim>\<open>label[i] != 0\<close> of the code reads it.\<close>

definition is_true :: "('l::zero) \<Rightarrow> bool" where
  "is_true x = (x \<noteq> 0)"

subsection \<open>Scenario A, sparse\<close>

text \<open>The graph of Scenario A with every vector written as index-value pairs.\<close>

definition scenario_A_sparse :: "(sparse_vector, sparse_vector) graph" where
  "scenario_A_sparse =
     [\<lparr> data = [(0, 1)], nbrs = [(1, [(0, 1)])] \<rparr>,
      \<lparr> data = [(0, 1)], nbrs = [(0, [(0, 1)]), (2, [(0, 1)])] \<rparr>,
      \<lparr> data = [(0, 1)], nbrs = [(1, [(0, 1)])] \<rparr>]"

definition scenario_A_sparse_problem :: "(sparse_vector, sparse_vector, nat) problem" where
  "scenario_A_sparse_problem = \<lparr> samples = [scenario_A_sparse], labels = [scenario_A_labels],
     node_dims = 1, edge_dims = 1 \<rparr>"

subsection \<open>The graph handed to the MAP solver\<close>

text \<open>
  The first half of \<^verbatim>\<open>separation_oracle\<close>, up to the call of
  \<^verbatim>\<open>find_max_factor_graph_potts\<close>: the Potts graph of sample \<open>idx\<close>.
\<close>

definition oracle_potts_graph ::
  "('n, 'e) vec_ops \<Rightarrow> ('n, 'e, 'l::zero) problem \<Rightarrow> int \<Rightarrow> real list \<Rightarrow> potts_graph option" where
  "oracle_potts_graph r p idx w =
     do {
       samp \<leftarrow> at_long (samples p) idx;
       truth \<leftarrow> at_long (labels p) idx;
       potts_nodes r p w truth 0 samp
     }"

subsection \<open>Vectors of zero length in a dataset\<close>

text \<open>Some node vector or some edge vector of some sample has size \<open>0\<close>.\<close>

definition has_empty_vector :: "('n, 'e) vec_ops \<Rightarrow> ('n, 'e) graph list \<Rightarrow> bool" where
  "has_empty_vector r ss =
     list_ex (\<lambda>s. list_ex (\<lambda>x. node_size r (data x) = 0 \<or>
                                 list_ex (\<lambda>(j, e). edge_size r e = 0) (nbrs x)) s) ss"

text \<open>
  A sparse dataset of one graph with two nodes and one edge whose vector has no entry,
  and the same graph with dense vectors.
\<close>

definition empty_edge_dataset :: "(sparse_vector, sparse_vector) graph list" where
  "empty_edge_dataset =
     [[\<lparr> data = [(0, 1)], nbrs = [(1, [])] \<rparr>,
       \<lparr> data = [(0, 1)], nbrs = [(0, [])] \<rparr>]]"

definition empty_dense_edge_dataset :: "(dense_vector, dense_vector) graph list" where
  "empty_dense_edge_dataset =
     [[\<lparr> data = [1], nbrs = [(1, [])] \<rparr>,
       \<lparr> data = [1], nbrs = [(0, [])] \<rparr>]]"

subsection \<open>The feature indices observed in a dataset\<close>

text \<open>
  The indices of a dense vector are its positions, the indices of a sparse vector are
  the first components of its pairs. \<open>node_vectors\<close> and \<open>edge_vectors\<close> list the vectors
  in the order in which the constructor scans them; an edge is listed once from each of
  its two ends.
\<close>

definition dense_indices :: "dense_vector \<Rightarrow> nat list" where
  "dense_indices v = [0..<length v]"

definition sparse_indices :: "sparse_vector \<Rightarrow> nat list" where
  "sparse_indices v = map fst v"

definition node_vectors :: "('n, 'e) graph list \<Rightarrow> 'n list" where
  "node_vectors ss = map data (concat ss)"

definition edge_vectors :: "('n, 'e) graph list \<Rightarrow> 'e list" where
  "edge_vectors ss = map snd (concat (map nbrs (concat ss)))"

text \<open>
  "One plus the maximum feature index observed", as the spec words it, and the same with
  the value \<open>0\<close> when no index is observed.
\<close>

definition one_plus_max_index :: "nat list \<Rightarrow> int" where
  "one_plus_max_index idxs = 1 + int (Max (set idxs))"

definition dims_of_indices :: "nat list \<Rightarrow> int" where
  "dims_of_indices idxs = (if idxs = [] then 0 else one_plus_max_index idxs)"

text \<open>A dense dataset of one graph with one node and no edge.\<close>

definition isolated_node_dataset :: "(dense_vector, dense_vector) graph list" where
  "isolated_node_dataset = [[\<lparr> data = [1, 0], nbrs = [] \<rparr>]]"

subsection \<open>The dense vector that a sparse vector denotes\<close>

text \<open>
  A sparse vector denotes the dense vector whose entry \<open>k\<close> is the sum of the values
  paired with index \<open>k\<close> ("duplicates summed"). \<open>densify_graph\<close> is the same sample in
  the dense representation.
\<close>

definition densify :: "nat \<Rightarrow> sparse_vector \<Rightarrow> dense_vector" where
  "densify d v = map (\<lambda>k. sum_list (map snd (filter (\<lambda>(i, x). i = k) v))) [0..<d]"


text \<open>
  A sparse vector fits a dimension when all its indices are below it; a sparse sample
  fits \<open>edge_dims\<close> and \<open>node_dims\<close> when its vectors do and the dimension of every
  vector that occurs is positive, as the constructor makes it on a validated dataset.
\<close>

definition indices_below :: "nat \<Rightarrow> sparse_vector \<Rightarrow> bool" where
  "indices_below d v = list_all (\<lambda>(k, x). k < d) v"





subsection \<open>The documented conditions of a valid sparse dataset\<close>

text \<open>
  The conditions that the comment of \<^verbatim>\<open>is_graph_labeling_problem\<close> lists for vectors
  that are not \<^verbatim>\<open>dlib::matrix\<close>: a learning problem, one label per node, no length-one
  cycle, and only values \<open>\<ge> 0\<close> in the edge vectors.
\<close>

definition documented_sparse_conditions ::
  "(sparse_vector, sparse_vector) graph list \<Rightarrow> 'l list list \<Rightarrow> bool" where
  "documented_sparse_conditions ss ls =
     (is_learning_problem ss ls \<and>
      list_all2 (\<lambda>s l. length l = number_of_nodes s) ss ls \<and>
      list_all (\<lambda>s. \<not> graph_contains_length_one_cycle s) ss \<and>
      list_all (\<lambda>e. list_all (\<lambda>(k, x). 0 \<le> x) e) (edge_vectors ss))"

text \<open>
  A sparse dataset of one graph with one node, whose vector is the zero vector (no
  entry), and no edge.
\<close>

definition zero_node_dataset :: "(sparse_vector, sparse_vector) graph list" where
  "zero_node_dataset = [[\<lparr> data = [], nbrs = [] \<rparr>]]"

subsection \<open>The checks of the validator, one by one\<close>

text \<open>
  \<open>thread_dims\<close> is the part of the loops that threads \<^verbatim>\<open>node_dims\<close> (or
  \<^verbatim>\<open>edge_dims\<close>) through a sequence of vector sizes; \<open>edges_pass\<close> and \<open>nodes_pass\<close> are
  the checks that do not depend on the loop state.
\<close>

fun thread_dims :: "bool \<Rightarrow> int \<Rightarrow> nat list \<Rightarrow> int option" where
  "thread_dims m d [] = Some d"
| "thread_dims m d (s # ss) =
     (let d' = (if m \<and> d = -1 then int s else d)
      in if m \<and> int s \<noteq> d' then None else thread_dims m d' ss)"

definition edges_pass :: "('n, 'e) vec_ops \<Rightarrow> (nat \<times> 'e) list \<Rightarrow> bool" where
  "edges_pass r es =
     list_all (\<lambda>(j, e). \<not> (ismat r \<and> edge_size r e = 0) \<and> \<not> edge_min r e < 0) es"

definition nodes_pass :: "('n, 'e) vec_ops \<Rightarrow> ('n, 'e) node list \<Rightarrow> bool" where
  "nodes_pass r xs = list_all (\<lambda>x. node_size r (data x) \<noteq> 0 \<and> edges_pass r (nbrs x)) xs"

definition node_sizes :: "('n, 'e) vec_ops \<Rightarrow> ('n, 'e) node list \<Rightarrow> nat list" where
  "node_sizes r xs = map (\<lambda>x. node_size r (data x)) xs"

definition edge_sizes :: "('n, 'e) vec_ops \<Rightarrow> ('n, 'e) node list \<Rightarrow> nat list" where
  "edge_sizes r xs = map (\<lambda>(j, e). edge_size r e) (concat (map nbrs xs))"

subsection \<open>The arithmetic of \<^verbatim>\<open>double\<close>\<close>






text \<open>
  The arithmetic of \<^verbatim>\<open>get_joint_feature_vector\<close> and of \<^verbatim>\<open>dot\<close> with the rounding of every
  sum and product as a parameter \<open>rnd\<close>. With the identity for \<open>rnd\<close> these are the
  functions above; with \<open>double_round\<close> they are the program on \<^verbatim>\<open>double\<close>. The sparse
  \<^verbatim>\<open>get_joint_feature_vector\<close> only copies and negates values, which is exact. \<^verbatim>\<open>dot\<close>
  accumulates the products from \<open>0\<close> in the order of the entries.
\<close>

definition mat_add_fl :: "(real \<Rightarrow> real) \<Rightarrow> real list \<Rightarrow> real list \<Rightarrow> real list option" where
  "mat_add_fl rnd a b =
     (if length a = length b then Some (map2 (\<lambda>x y. rnd (x + y)) a b) else None)"

definition mat_sub_fl :: "(real \<Rightarrow> real) \<Rightarrow> real list \<Rightarrow> real list \<Rightarrow> real list option" where
  "mat_sub_fl rnd a b =
     (if length a = length b then Some (map2 (\<lambda>x y. rnd (x - y)) a b) else None)"

definition dot_dense_fl :: "(real \<Rightarrow> real) \<Rightarrow> real list \<Rightarrow> dense_vector \<Rightarrow> real option" where
  "dot_dense_fl rnd m1 m2 =
     (if length m1 = length m2
      then Some (fold (\<lambda>(a, b) s. rnd (s + rnd (a * b))) (zip m1 m2) 0) else None)"

definition dot_sparse_fl :: "(real \<Rightarrow> real) \<Rightarrow> real list \<Rightarrow> sparse_vector \<Rightarrow> real option" where
  "dot_sparse_fl rnd m v =
     (if list_all (\<lambda>(k, x). k < length m) v
      then Some (fold (\<lambda>(k, x) s. rnd (s + rnd (m ! k * x))) v 0) else None)"

fun joint_dense_edges_fl ::
  "(real \<Rightarrow> real) \<Rightarrow> ('n, dense_vector, 'l) problem \<Rightarrow> ('l::zero) list \<Rightarrow> nat \<Rightarrow> bool
     \<Rightarrow> (nat \<times> dense_vector) list \<Rightarrow> real list \<Rightarrow> real list option" where
  "joint_dense_edges_fl rnd p label i label_i [] psi = Some psi"
| "joint_dense_edges_fl rnd p label i label_i ((j, e) # es) psi =
     do {
       lj \<leftarrow> nth_opt label j;
       psi' \<leftarrow> (if i < j \<and> label_i \<noteq> (lj \<noteq> 0)
                then do {
                  cur \<leftarrow> rowm psi (range_exp 0 (edge_dims p - 1));
                  new \<leftarrow> mat_sub_fl rnd cur e;
                  set_rowm psi (range_exp 0 (edge_dims p - 1)) new }
                else Some psi);
       joint_dense_edges_fl rnd p label i label_i es psi'
     }"

fun joint_dense_nodes_fl ::
  "(real \<Rightarrow> real) \<Rightarrow> (dense_vector, dense_vector, 'l) problem \<Rightarrow> ('l::zero) list \<Rightarrow> nat
     \<Rightarrow> (dense_vector, dense_vector) node list \<Rightarrow> real list \<Rightarrow> real list option" where
  "joint_dense_nodes_fl rnd p label i [] psi = Some psi"
| "joint_dense_nodes_fl rnd p label i (x # xs) psi =
     do {
       li \<leftarrow> nth_opt label i;
       psi1 \<leftarrow> (if li \<noteq> 0
                then do {
                  cur \<leftarrow> rowm psi (range_exp (edge_dims p) (int (length psi) - 1));
                  new \<leftarrow> mat_add_fl rnd cur (data x);
                  set_rowm psi (range_exp (edge_dims p) (int (length psi) - 1)) new }
                else Some psi);
       psi2 \<leftarrow> joint_dense_edges_fl rnd p label i (li \<noteq> 0) (nbrs x) psi1;
       joint_dense_nodes_fl rnd p label (Suc i) xs psi2
     }"

definition get_joint_feature_vector_dense_fl ::
  "(real \<Rightarrow> real) \<Rightarrow> (dense_vector, dense_vector, 'l) problem
     \<Rightarrow> (dense_vector, dense_vector) graph \<Rightarrow> ('l::zero) list \<Rightarrow> real list option" where
  "get_joint_feature_vector_dense_fl rnd p sample label =
     do {
       psi \<leftarrow> set_size (get_num_dimensions p);
       joint_dense_nodes_fl rnd p label 0 sample psi
     }"






subsection \<open>\<^verbatim>\<open>separation_oracle\<close> with its output parameters\<close>

text \<open>
  In C++ the oracle returns nothing: it writes the loss and the feature vector into two
  variables of the caller, \<^verbatim>\<open>double& loss\<close> and \<^verbatim>\<open>feature_vector_type& psi\<close>, which hold
  whatever an earlier call left in them.
\<close>

record 'psi out_params =
  loss_out :: real
  psi_out :: 'psi

text \<open>
  Modelled from the spec: \<^verbatim>\<open>matrix::set_size\<close> (\<^verbatim>\<open>dlib/matrix.h\<close>) gives the caller's vector
  the requested number of rows, and the builder must then "initialize \<open>psi\<close> to all zeros
  (dense) or empty (sparse)". What the entries hold after \<^verbatim>\<open>set_size\<close> is not specified; the
  model keeps the old entries that fit, the case in which old contents could show
  through. \<^verbatim>\<open>psi = 0\<close> assigns \<open>0\<close> to every entry; \<^verbatim>\<open>psi.clear()\<close> empties a sparse vector.
\<close>

definition set_size_of :: "real list \<Rightarrow> int \<Rightarrow> real list option" where
  "set_size_of psi n =
     (if n < 0 then None else Some (take (nat n) psi @ replicate (nat n - length psi) 0))"

definition assign_all :: "real list \<Rightarrow> real \<Rightarrow> real list" where
  "assign_all psi c = map (\<lambda>x. c) psi"

definition clear_vector :: "sparse_vector \<Rightarrow> sparse_vector" where
  "clear_vector psi = []"

text \<open>
  \<^verbatim>\<open>get_joint_feature_vector\<close> with its third parameter: \<open>psi\<close> comes in with the contents
  the caller left in it (lines 223-224 and 280).
\<close>

definition get_joint_feature_vector_dense_into ::
  "(dense_vector, dense_vector, 'l) problem \<Rightarrow> (dense_vector, dense_vector) graph
     \<Rightarrow> ('l::zero) list \<Rightarrow> real list \<Rightarrow> real list option" where
  "get_joint_feature_vector_dense_into p sample label psi =
     do {
       psi1 \<leftarrow> set_size_of psi (get_num_dimensions p);
       joint_dense_nodes p label 0 sample (assign_all psi1 0)
     }"

definition get_joint_feature_vector_sparse_into ::
  "(sparse_vector, sparse_vector, 'l) problem \<Rightarrow> (sparse_vector, sparse_vector) graph
     \<Rightarrow> ('l::zero) list \<Rightarrow> sparse_vector \<Rightarrow> sparse_vector option" where
  "get_joint_feature_vector_sparse_into p sample label psi =
     joint_sparse_nodes p label 0 sample (clear_vector psi)"

text \<open>
  The call as the trainer makes it. \<^verbatim>\<open>loss = 0\<close> (line 355) overwrites the incoming loss
  before the loop counts; the Potts graph and the labeling are locals of the call; the
  member function is \<^verbatim>\<open>const\<close>, so the problem is read and not written. What a call
  leaves behind for the next one is the pair of output parameters.
\<close>

definition separation_oracle_call ::
  "('n, 'e) vec_ops
     \<Rightarrow> (('n, 'e, 'l) problem \<Rightarrow> ('n, 'e) graph \<Rightarrow> ('l::zero) list \<Rightarrow> 'psi \<Rightarrow> 'psi option)
     \<Rightarrow> (potts_graph \<Rightarrow> 'l list)
     \<Rightarrow> ('n, 'e, 'l) problem \<Rightarrow> int \<Rightarrow> real list \<Rightarrow> 'psi out_params
     \<Rightarrow> 'psi out_params option" where
  "separation_oracle_call r joint_into solver p idx current_solution out =
     do {
       samp \<leftarrow> at_long (samples p) idx;
       truth \<leftarrow> at_long (labels p) idx;
       g \<leftarrow> potts_nodes r p current_solution truth 0 samp;
       let labeling = solver g;
       loss \<leftarrow> figure_out_loss truth 0 labeling 0;
       psi \<leftarrow> joint_into p samp labeling (psi_out out);
       Some (out\<lparr> loss_out := loss, psi_out := psi \<rparr>)
     }"

definition separation_oracle_call_dense ::
  "(potts_graph \<Rightarrow> 'l list) \<Rightarrow> (dense_vector, dense_vector, 'l::zero) problem \<Rightarrow> int
     \<Rightarrow> real list \<Rightarrow> real list out_params \<Rightarrow> real list out_params option" where
  "separation_oracle_call_dense =
     separation_oracle_call dense_ops get_joint_feature_vector_dense_into"

definition separation_oracle_call_sparse ::
  "(potts_graph \<Rightarrow> 'l list) \<Rightarrow> (sparse_vector, sparse_vector, 'l::zero) problem \<Rightarrow> int
     \<Rightarrow> real list \<Rightarrow> sparse_vector out_params \<Rightarrow> sparse_vector out_params option" where
  "separation_oracle_call_sparse =
     separation_oracle_call sparse_ops get_joint_feature_vector_sparse_into"

section \<open>Auxiliary facts\<close>

subsection \<open>Row ranges\<close>

lemma upto_nat_map: "[int a..int a + int n - 1] = map int [a..<a + n]"
  by (rule nth_equalityI) (auto simp: nth_upto)

lemma rows_ok_block: "a + n \<le> length m \<Longrightarrow> rows_ok m (map int [a..<a + n])"
  by (auto simp: rows_ok_def list_all_iff)

lemma rowm_block: "a + n \<le> length m \<Longrightarrow>
  rowm m (map int [a..<a + n]) = Some (take n (drop a m))"
  by (auto simp: rowm_def rows_ok_block comp_def intro!: nth_equalityI)



lemma range_node_block:
  "0 \<le> ed \<Longrightarrow> ed < int (length m) \<Longrightarrow>
   range_exp ed (int (length m) - 1) = map int [nat ed..<nat ed + (length m - nat ed)]"
  using upto_nat_map[of "nat ed" "length m - nat ed"]
  by (simp add: range_exp_def)

lemma range_edge_block:
  "0 < ed \<Longrightarrow> range_exp 0 (ed - 1) = map int [0..<0 + nat ed]"
  using upto_nat_map[of 0 "nat ed"]
  by (simp add: range_exp_def)

lemma rowm_node_block:
  "0 \<le> ed \<Longrightarrow> ed < int (length m) \<Longrightarrow>
   rowm m (range_exp ed (int (length m) - 1)) = Some (drop (nat ed) m)"
  using rowm_block[of "nat ed" "length m - nat ed" m]
  by (simp add: range_node_block)

lemma rowm_edge_block:
  "0 < ed \<Longrightarrow> ed \<le> int (length m) \<Longrightarrow>
   rowm m (range_exp 0 (ed - 1)) = Some (take (nat ed) m)"
  using rowm_block[of 0 "nat ed" m]
  by (simp add: range_edge_block)



subsection \<open>Evaluation of concrete instances\<close>

lemmas eval_defs = scenario_A_problem_def scenario_A_def scenario_A_labels_def dense_ops_def sparse_ops_def
      number_of_nodes_def graph_contains_length_one_cycle_def min_dense_def min_sparse_def
      get_joint_feature_vector_dense_def set_size_def get_num_dimensions_def nth_opt_def at_long_def
      rowm_def set_rowm_def range_exp_def rows_ok_def mat_add_def mat_sub_def upto.simps
      dot_dense_def dot_sparse_def separation_oracle_def
      eval_nat_numeral

subsection \<open>The loss loop\<close>

lemma figure_out_loss_count:
  "i + length rest \<le> length truth \<Longrightarrow>
   figure_out_loss truth i rest loss =
     Some (loss + real (length (filter (\<lambda>k. (truth ! (i + k) \<noteq> 0) \<noteq> (rest ! k \<noteq> 0))
                                 [0..<length rest])))"
proof (induction rest arbitrary: i loss)
  case Nil
  then show ?case by simp
next
  case (Cons pl rest)
  have shift: "[0..<Suc (length rest)] = 0 # map Suc [0..<length rest]"
    by (simp add: upt_conv_Cons map_Suc_upt del: upt_Suc)
  have "Suc i + length rest \<le> length truth" using Cons.prems by simp
  from Cons.IH[OF this] show ?case
    using Cons.prems by (simp add: shift nth_opt_def filter_map comp_def del: upt_Suc)
qed

lemma figure_out_loss_hamming:
  "length labeling \<le> length truth \<Longrightarrow>
   figure_out_loss truth 0 labeling 0 = Some (real (hamming_distance truth labeling))"
  using figure_out_loss_count[of 0 labeling truth 0]
  by (simp add: hamming_distance_def disagree_def[abs_def])

lemma hamming_le: "hamming_distance truth labeling \<le> length labeling"
  using length_filter_le[of "disagree truth labeling" "[0..<length labeling]"]
  by (simp add: hamming_distance_def)

lemma hamming_zero_iff:
  "hamming_distance truth labeling = 0 \<longleftrightarrow>
     (\<forall>i<length labeling. (labeling ! i \<noteq> 0) = (truth ! i \<noteq> 0))"
  by (auto simp: hamming_distance_def disagree_def filter_empty_conv)

subsection \<open>The Potts graph of the separation oracle\<close>

lemma potts_edges_some:
  assumes "list_all (\<lambda>(j, e). rowm w (range_exp 0 (edge_dims p - 1)) \<bind> (\<lambda>wb. edge_dot r wb e) \<noteq> None) es"
  shows "\<exists>res. potts_edges r p w i es = Some res"
  using assms
proof (induction es)
  case Nil
  then show ?case by simp
next
  case (Cons a es)
  obtain j e where a: "a = (j, e)" by (cases a)
  from Cons.prems have "list_all (\<lambda>(j, e). rowm w (range_exp 0 (edge_dims p - 1)) \<bind> (\<lambda>wb. edge_dot r wb e) \<noteq> None) es" by simp
  from Cons.IH[OF this] obtain res where res: "potts_edges r p w i es = Some res" by blast
  from Cons.prems a obtain d where
    d: "rowm w (range_exp 0 (edge_dims p - 1)) \<bind> (\<lambda>wb. edge_dot r wb e) = Some d"
    by auto
  show ?case using res d by (cases "i < j") (auto simp: a split: bind_splits)
qed

lemma potts_nodes_potential:
  assumes "0 \<le> edge_dims p" and "edge_dims p < int (length w)"
    and "i + length xs \<le> length truth"
    and "list_all (\<lambda>x. node_dot r (drop (nat (edge_dims p)) w) (data x) \<noteq> None) xs"
    and "list_all (\<lambda>x. list_all (\<lambda>(j, e).
           rowm w (range_exp 0 (edge_dims p - 1)) \<bind> (\<lambda>wb. edge_dot r wb e) \<noteq> None) (nbrs x)) xs"
  shows "\<exists>g. potts_nodes r p w truth i xs = Some g \<and> length g = length xs \<and>
           (\<forall>k<length xs. \<exists>d. node_dot r (drop (nat (edge_dims p)) w) (data (xs ! k)) = Some d \<and>
               data (g ! k) = (if truth ! (i + k) \<noteq> 0 then d - 1 else d + 1))"
  using assms(3-)
proof (induction xs arbitrary: i)
  case Nil
  then show ?case by simp
next
  case (Cons x xs)
  have "Suc i + length xs \<le> length truth" using Cons.prems by simp
  moreover have "list_all (\<lambda>x. node_dot r (drop (nat (edge_dims p)) w) (data x) \<noteq> None) xs"
    using Cons.prems by simp
  moreover have "list_all (\<lambda>x. list_all (\<lambda>(j, e).
           rowm w (range_exp 0 (edge_dims p - 1)) \<bind> (\<lambda>wb. edge_dot r wb e) \<noteq> None) (nbrs x)) xs"
    using Cons.prems by simp
  ultimately obtain g where g: "potts_nodes r p w truth (Suc i) xs = Some g" "length g = length xs"
    and gk: "\<forall>k<length xs. \<exists>d. node_dot r (drop (nat (edge_dims p)) w) (data (xs ! k)) = Some d \<and>
               data (g ! k) = (if truth ! (Suc i + k) \<noteq> 0 then d - 1 else d + 1)"
    using Cons.IH[of "Suc i"] by blast
  from Cons.prems obtain d where d: "node_dot r (drop (nat (edge_dims p)) w) (data x) = Some d"
    by auto
  have "list_all (\<lambda>(j, e).
           rowm w (range_exp 0 (edge_dims p - 1)) \<bind> (\<lambda>wb. edge_dot r wb e) \<noteq> None) (nbrs x)"
    using Cons.prems by simp
  from potts_edges_some[OF this]
  obtain es where es: "potts_edges r p w i (nbrs x) = Some es" by blast
  have i: "i < length truth" using Cons.prems by simp
  let ?g = "\<lparr> data = (if truth ! i \<noteq> 0 then d - 1 else d + 1), nbrs = es \<rparr> # g"
  have run: "potts_nodes r p w truth i (x # xs) = Some ?g"
    using g d es i rowm_node_block[OF assms(1,2)] by (simp add: nth_opt_def)
  have "\<exists>d. node_dot r (drop (nat (edge_dims p)) w) (data ((x # xs) ! k)) = Some d \<and>
               data (?g ! k) = (if truth ! (i + k) \<noteq> 0 then d - 1 else d + 1)"
    if "k < length (x # xs)" for k
  proof (cases k)
    case 0
    then show ?thesis using d by simp
  next
    case (Suc k')
    then show ?thesis using gk that by simp
  qed
  then show ?case using run g by simp
qed

subsection \<open>Labels enter only as truth values\<close>

lemma nth_opt_truth_value:
  assumes "map is_true l = map is_true l'"
  shows "rel_option (\<lambda>a b. (a \<noteq> 0) = (b \<noteq> 0)) (nth_opt l i) (nth_opt l' i)"
proof -
  have len: "length l = length l'" using assms by (rule map_eq_imp_length_eq)
  show ?thesis
  proof (cases "i < length l")
    case True
    have "map is_true l ! i = map is_true l' ! i" using assms by simp
    then show ?thesis using True len by (simp add: nth_opt_def is_true_def)
  next
    case False
    then show ?thesis using len by (simp add: nth_opt_def)
  qed
qed

lemma joint_dense_edges_truth_value:
  assumes "map is_true l = map is_true l'"
  shows "joint_dense_edges p l i b es psi = joint_dense_edges p l' i b es psi"
proof (induction es arbitrary: psi b)
  case Nil
  then show ?case by simp
next
  case (Cons a es)
  obtain j e where a: "a = (j, e)" by (cases a)
  have IH: "joint_dense_edges p l i c es = joint_dense_edges p l' i c es" for c
    by (rule ext) (rule Cons.IH)
  show ?case
    using nth_opt_truth_value[OF assms, of j]
    by (cases "nth_opt l j"; cases "nth_opt l' j") (simp_all add: a IH)
qed

lemma joint_dense_nodes_truth_value:
  assumes "map is_true l = map is_true l'"
  shows "joint_dense_nodes p l i xs psi = joint_dense_nodes p l' i xs psi"
proof (induction xs arbitrary: i psi)
  case Nil
  then show ?case by simp
next
  case (Cons x xs)
  have IH: "joint_dense_nodes p l k xs = joint_dense_nodes p l' k xs" for k
    by (rule ext) (rule Cons.IH)
  show ?case
    using nth_opt_truth_value[OF assms, of i]
    by (cases "nth_opt l i"; cases "nth_opt l' i")
       (simp_all add: IH joint_dense_edges_truth_value[OF assms])
qed

lemma joint_sparse_edges_truth_value:
  assumes "map is_true l = map is_true l'"
  shows "joint_sparse_edges l i b es psi = joint_sparse_edges l' i b es psi"
proof (induction es arbitrary: psi b)
  case Nil
  then show ?case by simp
next
  case (Cons a es)
  obtain j e where a: "a = (j, e)" by (cases a)
  have IH: "joint_sparse_edges l i c es = joint_sparse_edges l' i c es" for c
    by (rule ext) (rule Cons.IH)
  show ?case
    using nth_opt_truth_value[OF assms, of j]
    by (cases "nth_opt l j"; cases "nth_opt l' j") (simp_all add: a IH)
qed

lemma joint_sparse_nodes_truth_value:
  assumes "map is_true l = map is_true l'"
  shows "joint_sparse_nodes p l i xs psi = joint_sparse_nodes p l' i xs psi"
proof (induction xs arbitrary: i psi)
  case Nil
  then show ?case by simp
next
  case (Cons x xs)
  have IH: "joint_sparse_nodes p l k xs = joint_sparse_nodes p l' k xs" for k
    by (rule ext) (rule Cons.IH)
  show ?case
    using nth_opt_truth_value[OF assms, of i]
    by (cases "nth_opt l i"; cases "nth_opt l' i")
       (simp_all add: IH joint_sparse_edges_truth_value[OF assms])
qed

lemma joint_dense_edges_labels_update:
  "joint_dense_edges (p\<lparr>labels := ls\<rparr>) l i b es psi = joint_dense_edges p l i b es psi"
proof (induction es arbitrary: psi)
  case Nil
  then show ?case by simp
next
  case (Cons a es)
  obtain j e where a: "a = (j, e)" by (cases a)
  have IH: "joint_dense_edges (p\<lparr>labels := ls\<rparr>) l i b es = joint_dense_edges p l i b es"
    by (rule ext) (rule Cons.IH)
  show ?case by (simp add: a IH cong: if_cong)
qed

lemma joint_dense_nodes_labels_update:
  "joint_dense_nodes (p\<lparr>labels := ls\<rparr>) l i xs psi = joint_dense_nodes p l i xs psi"
proof (induction xs arbitrary: i psi)
  case Nil
  then show ?case by simp
next
  case (Cons x xs)
  have IH: "joint_dense_nodes (p\<lparr>labels := ls\<rparr>) l k xs = joint_dense_nodes p l k xs" for k
    by (rule ext) (rule Cons.IH)
  have E: "joint_dense_edges (p\<lparr>labels := ls\<rparr>) l i b es = joint_dense_edges p l i b es"
    for b es by (rule ext) (rule joint_dense_edges_labels_update)
  show ?case by (simp add: IH E cong: if_cong)
qed

lemma joint_sparse_nodes_labels_update:
  "joint_sparse_nodes (p\<lparr>labels := ls\<rparr>) l i xs psi = joint_sparse_nodes p l i xs psi"
proof (induction xs arbitrary: i psi)
  case Nil
  then show ?case by simp
next
  case (Cons x xs)
  have IH: "joint_sparse_nodes (p\<lparr>labels := ls\<rparr>) l k xs = joint_sparse_nodes p l k xs" for k
    by (rule ext) (rule Cons.IH)
  show ?case by (simp add: IH cong: if_cong)
qed

lemma potts_edges_labels_update:
  "potts_edges r (p\<lparr>labels := ls\<rparr>) w i es = potts_edges r p w i es"
proof (induction es)
  case Nil
  then show ?case by simp
next
  case (Cons a es)
  obtain j e where a: "a = (j, e)" by (cases a)
  show ?case by (simp add: a Cons.IH cong: if_cong)
qed

lemma potts_nodes_truth_value:
  assumes "map is_true t = map is_true t'"
  shows "potts_nodes r (p\<lparr>labels := ls\<rparr>) w t' i xs = potts_nodes r p w t i xs"
proof (induction xs arbitrary: i)
  case Nil
  then show ?case by simp
next
  case (Cons x xs)
  show ?case
    using nth_opt_truth_value[OF assms, of i]
    by (cases "nth_opt t i"; cases "nth_opt t' i")
       (simp_all add: Cons.IH potts_edges_labels_update cong: if_cong)
qed

lemma figure_out_loss_truth_value:
  assumes "map is_true t = map is_true t'"
  shows "map is_true l = map is_true l' \<Longrightarrow>
         figure_out_loss t' i l' loss = figure_out_loss t i l loss"
proof (induction l arbitrary: l' i loss)
  case Nil
  then show ?case by simp
next
  case (Cons a l)
  from Cons.prems obtain a' l2 where l': "l' = a' # l2" "is_true a = is_true a'"
    "map is_true l = map is_true l2" by (cases l') auto
  show ?case
    using nth_opt_truth_value[OF assms, of i] Cons.IH[OF l'(3)] l'(2)
    by (cases "nth_opt t i"; cases "nth_opt t' i") (simp_all add: l'(1) is_true_def)
qed

lemma at_long_truth_value:
  assumes "map (map is_true) ls = map (map is_true) ls'"
  shows "rel_option (\<lambda>t t'. map is_true t = map is_true t') (at_long ls idx) (at_long ls' idx)"
proof -
  have len: "length ls = length ls'" using assms by (rule map_eq_imp_length_eq)
  show ?thesis
  proof (cases "0 \<le> idx \<and> idx < int (length ls)")
    case True
    then have "nat idx < length ls" by linarith
    moreover have "map (map is_true) ls ! nat idx = map (map is_true) ls' ! nat idx"
      using assms by simp
    ultimately show ?thesis using True len by (simp add: at_long_def)
  next
    case False
    then show ?thesis using len by (auto simp: at_long_def)
  qed
qed

lemma separation_oracle_truth_value:
  assumes ls: "map (map is_true) (labels p) = map (map is_true) ls'"
    and sol: "\<And>g. map is_true (solver g) = map is_true (solver' g)"
    and joint: "\<And>samp l l'. map is_true l = map is_true l' \<Longrightarrow>
                  joint (p\<lparr>labels := ls'\<rparr>) samp l' = joint p samp l"
  shows "separation_oracle r joint solver' (p\<lparr>labels := ls'\<rparr>) idx w
           = separation_oracle r joint solver p idx w"
proof (cases "at_long (samples p) idx")
  case None
  then show ?thesis by (simp add: separation_oracle_def)
next
  case (Some samp)
  show ?thesis
  proof (cases "at_long (labels p) idx")
    case None
    with at_long_truth_value[OF ls, of idx] have "at_long ls' idx = None"
      by (cases "at_long ls' idx") simp_all
    with None Some show ?thesis by (simp add: separation_oracle_def)
  next
    case t: (Some t)
    with at_long_truth_value[OF ls, of idx] obtain t' where
      t': "at_long ls' idx = Some t'" "map is_true t = map is_true t'"
      by (cases "at_long ls' idx") simp_all
    show ?thesis
    proof (cases "potts_nodes r p w t 0 samp")
      case None
      then show ?thesis using Some t t'
        by (simp add: separation_oracle_def Let_def potts_nodes_truth_value[OF t'(2)])
    next
      case g: (Some g)
      have "figure_out_loss t' 0 (solver' g) 0 = figure_out_loss t 0 (solver g) 0"
        by (rule figure_out_loss_truth_value[OF t'(2) sol])
      moreover have "joint (p\<lparr>labels := ls'\<rparr>) samp (solver' g) = joint p samp (solver g)"
        by (rule joint[OF sol])
      ultimately show ?thesis using Some t t' g
        by (simp add: separation_oracle_def Let_def potts_nodes_truth_value[OF t'(2)])
    qed
  qed
qed

subsection \<open>The all-false labeling\<close>

lemma joint_dense_edges_all_false:
  assumes "list_all (\<lambda>x. x = 0) label"
    and "list_all (\<lambda>(j, e). j < length label) es"
  shows "joint_dense_edges p label i False es psi = Some psi"
  using assms(2)
proof (induction es)
  case Nil
  then show ?case by simp
next
  case (Cons a es)
  obtain j e where a: "a = (j, e)" by (cases a)
  have j: "j < length label" using Cons.prems a by simp
  then have "label ! j = 0" using assms(1) by (simp add: list_all_length)
  then show ?case using Cons j by (simp add: a nth_opt_def)
qed

lemma joint_dense_nodes_all_false:
  assumes "list_all (\<lambda>x. x = 0) label"
    and "i + length xs \<le> length label"
    and "list_all (\<lambda>x. list_all (\<lambda>(j, e). j < length label) (nbrs x)) xs"
  shows "joint_dense_nodes p label i xs psi = Some psi"
  using assms(2,3)
proof (induction xs arbitrary: i)
  case Nil
  then show ?case by simp
next
  case (Cons x xs)
  have i: "i < length label" using Cons.prems by simp
  then have z: "label ! i = 0" using assms(1) by (simp add: list_all_length)
  have e: "joint_dense_edges p label i False (nbrs x) psi = Some psi"
    using Cons.prems by (simp add: joint_dense_edges_all_false[OF assms(1)])
  have "joint_dense_nodes p label (Suc i) xs psi = Some psi"
    using Cons.prems by (intro Cons.IH) simp_all
  then show ?case using i z e by (simp add: nth_opt_def)
qed

lemma joint_sparse_edges_all_false:
  assumes "list_all (\<lambda>x. x = 0) label"
    and "list_all (\<lambda>(j, e). j < length label) es"
  shows "joint_sparse_edges label i False es psi = Some psi"
  using assms(2)
proof (induction es)
  case Nil
  then show ?case by simp
next
  case (Cons a es)
  obtain j e where a: "a = (j, e)" by (cases a)
  have j: "j < length label" using Cons.prems a by simp
  then have "label ! j = 0" using assms(1) by (simp add: list_all_length)
  then show ?case using Cons j by (simp add: a nth_opt_def)
qed

lemma joint_sparse_nodes_all_false:
  assumes "list_all (\<lambda>x. x = 0) label"
    and "i + length xs \<le> length label"
    and "list_all (\<lambda>x. list_all (\<lambda>(j, e). j < length label) (nbrs x)) xs"
  shows "joint_sparse_nodes p label i xs psi = Some psi"
  using assms(2,3)
proof (induction xs arbitrary: i)
  case Nil
  then show ?case by simp
next
  case (Cons x xs)
  have i: "i < length label" using Cons.prems by simp
  then have z: "label ! i = 0" using assms(1) by (simp add: list_all_length)
  have e: "joint_sparse_edges label i False (nbrs x) psi = Some psi"
    using Cons.prems by (simp add: joint_sparse_edges_all_false[OF assms(1)])
  have "joint_sparse_nodes p label (Suc i) xs psi = Some psi"
    using Cons.prems by (intro Cons.IH) simp_all
  then show ?case using i z e by (simp add: nth_opt_def)
qed

lemma dot_dense_zero: "length w = n \<Longrightarrow> dot_dense w (replicate n 0) = Some 0"
proof -
  have "sum_list (map2 (*) w (replicate k 0)) = 0" for k
  proof (induction w arbitrary: k)
    case Nil
    then show ?case by simp
  next
    case (Cons a w)
    then show ?case by (cases k) simp_all
  qed
  then show "length w = n \<Longrightarrow> dot_dense w (replicate n 0) = Some 0"
    by (simp add: dot_dense_def)
qed

subsection \<open>What an accepted dataset satisfies\<close>

lemma check_edges_nonempty:
  "check_edges r es ed = Some ed' \<Longrightarrow> ismat r \<Longrightarrow>
   list_all (\<lambda>(j, e). edge_size r e \<noteq> 0) es"
proof (induction es arbitrary: ed)
  case Nil
  then show ?case by simp
next
  case (Cons a es)
  obtain j e where a: "a = (j, e)" by (cases a)
  from Cons.prems Cons.IH show ?case
    by (auto simp: a Let_def split: if_splits)
qed

lemma check_nodes_nonempty:
  "check_nodes r xs st = Some st' \<Longrightarrow> ismat r \<Longrightarrow>
   list_all (\<lambda>x. node_size r (data x) \<noteq> 0 \<and>
                  list_all (\<lambda>(j, e). edge_size r e \<noteq> 0) (nbrs x)) xs"
proof (induction xs arbitrary: st)
  case Nil
  then show ?case by simp
next
  case (Cons x xs)
  obtain nd ed where st: "st = (nd, ed)" by (cases st)
  from Cons.prems obtain ed' nd' where
    n: "node_size r (data x) \<noteq> 0" and
    e: "check_edges r (nbrs x) ed = Some ed'" and
    rest: "check_nodes r xs (nd', ed') = Some st'"
    by (auto simp: st Let_def split: if_splits option.splits)
  from check_edges_nonempty[OF e Cons.prems(2)] Cons.IH[OF rest Cons.prems(2)] n
  show ?case by simp
qed

lemma check_samples_nonempty:
  "check_samples r zs st = Some st' \<Longrightarrow> ismat r \<Longrightarrow>
   list_all (\<lambda>(s, l). list_all (\<lambda>x. node_size r (data x) \<noteq> 0 \<and>
                  list_all (\<lambda>(j, e). edge_size r e \<noteq> 0) (nbrs x)) s) zs"
proof (induction zs arbitrary: st)
  case Nil
  then show ?case by simp
next
  case (Cons z zs)
  obtain s l where z: "z = (s, l)" by (cases z)
  from Cons.prems obtain st1 where
    n: "check_nodes r s st = Some st1" and
    rest: "check_samples r zs st1 = Some st'"
    by (auto simp: z split: if_splits option.splits)
  from check_nodes_nonempty[OF n Cons.prems(2)] Cons.IH[OF rest Cons.prems(2)]
  show ?case by (simp add: z)
qed

subsection \<open>The dimensions the constructor infers\<close>

lemma dims_of_indices_nonneg: "0 \<le> dims_of_indices xs"
  by (simp add: dims_of_indices_def one_plus_max_index_def)

lemma dims_of_indices_append:
  "dims_of_indices (xs @ ys) = max (dims_of_indices xs) (dims_of_indices ys)"
proof (cases "xs = [] \<or> ys = []")
  case True
  then show ?thesis using dims_of_indices_nonneg[of xs] dims_of_indices_nonneg[of ys]
    by (auto simp: dims_of_indices_def)
next
  case False
  then have "Max (set xs \<union> set ys) = max (Max (set xs)) (Max (set ys))"
    by (intro Max_Un) simp_all
  then show ?thesis using False
    by (simp add: dims_of_indices_def one_plus_max_index_def)
qed

lemma dims_of_dense_indices: "dims_of_indices (dense_indices v) = int (length v)"
proof (cases v rule: rev_cases)
  case Nil
  then show ?thesis by (simp add: dims_of_indices_def dense_indices_def)
next
  case (snoc ys y)
  then have "Max (set [0..<length v]) = length ys"
    by (intro Max_eqI) auto
  then show ?thesis using snoc
    by (simp add: dims_of_indices_def dense_indices_def one_plus_max_index_def)
qed

lemma max_index_plus_one_sparse_fold:
  "fold (\<lambda>(k, x) m. max m (Suc k)) v a = nat (max (int a) (dims_of_indices (sparse_indices v)))"
proof (induction v arbitrary: a)
  case Nil
  then show ?case by (simp add: dims_of_indices_def sparse_indices_def)
next
  case (Cons kx v)
  obtain k x where kx: "kx = (k, x)" by (cases kx)
  have "dims_of_indices (sparse_indices ((k, x) # v))
          = max (int (Suc k)) (dims_of_indices (sparse_indices v))"
    using dims_of_indices_append[of "[k]" "map fst v"]
    by (simp add: sparse_indices_def) (simp add: dims_of_indices_def one_plus_max_index_def)
  moreover have "int (max a (Suc k)) = max (int a) (int (Suc k))"
    by (simp add: max_def)
  ultimately show ?case using Cons.IH[of "max a (Suc k)"]
    by (simp add: kx max.assoc del: of_nat_Suc)
qed

lemma dims_of_sparse_indices:
  "dims_of_indices (sparse_indices v) = int (max_index_plus_one_sparse v)"
  using dims_of_indices_nonneg[of "sparse_indices v"]
  by (simp add: max_index_plus_one_sparse_def max_index_plus_one_sparse_fold)

lemma dims_edges_indices:
  assumes "\<And>e. int (edge_max_index_plus_one r e) = dims_of_indices (ie e)"
  shows "0 \<le> ed \<Longrightarrow>
     dims_edges r es ed = max ed (dims_of_indices (concat (map (\<lambda>(j, e). ie e) es)))"
proof (induction es arbitrary: ed)
  case Nil
  then show ?case by (simp add: dims_of_indices_def)
next
  case (Cons a es)
  obtain j e where a: "a = (j, e)" by (cases a)
  have "0 \<le> max ed (dims_of_indices (ie e))" using Cons.prems by simp
  from Cons.IH[OF this] show ?case
    by (simp add: a assms dims_of_indices_append max.assoc)
qed

lemma dims_nodes_indices:
  assumes "\<And>v. int (node_max_index_plus_one r v) = dims_of_indices (iv v)"
    and "\<And>e. int (edge_max_index_plus_one r e) = dims_of_indices (ie e)"
  shows "0 \<le> nd \<Longrightarrow> 0 \<le> ed \<Longrightarrow>
     dims_nodes r xs (nd, ed) =
       (max nd (dims_of_indices (concat (map iv (map data xs)))),
        max ed (dims_of_indices (concat (map ie (map snd (concat (map nbrs xs)))))))"
proof (induction xs arbitrary: nd ed)
  case Nil
  then show ?case by (simp add: dims_of_indices_def)
next
  case (Cons x xs)
  have e: "dims_edges r (nbrs x) ed
             = max ed (dims_of_indices (concat (map ie (map snd (nbrs x)))))"
    using dims_edges_indices[of r ie ed "nbrs x", OF assms(2) Cons.prems(2)]
    by (simp add: case_prod_unfold comp_def)
  have "0 \<le> max nd (dims_of_indices (iv (data x)))" using Cons.prems by simp
  moreover have "0 \<le> dims_edges r (nbrs x) ed" using Cons.prems e by simp
  ultimately show ?case using Cons.IH[of "max nd (dims_of_indices (iv (data x)))"
        "dims_edges r (nbrs x) ed"]
    by (simp add: assms(1) e dims_of_indices_append max.assoc)
qed

lemma dims_samples_indices:
  assumes "\<And>v. int (node_max_index_plus_one r v) = dims_of_indices (iv v)"
    and "\<And>e. int (edge_max_index_plus_one r e) = dims_of_indices (ie e)"
  shows "0 \<le> nd \<Longrightarrow> 0 \<le> ed \<Longrightarrow>
     dims_samples r ss (nd, ed) =
       (max nd (dims_of_indices (concat (map iv (node_vectors ss)))),
        max ed (dims_of_indices (concat (map ie (edge_vectors ss)))))"
proof (induction ss arbitrary: nd ed)
  case Nil
  then show ?case by (simp add: dims_of_indices_def node_vectors_def edge_vectors_def)
next
  case (Cons s ss)
  let ?n = "max nd (dims_of_indices (concat (map iv (map data s))))"
  let ?e = "max ed (dims_of_indices (concat (map ie (map snd (concat (map nbrs s))))))"
  have s: "dims_nodes r s (nd, ed) = (?n, ?e)"
    using dims_nodes_indices[of r iv ie nd ed s, OF assms Cons.prems] .
  have "0 \<le> ?n" "0 \<le> ?e" using Cons.prems by simp_all
  from Cons.IH[OF this] show ?case
    by (simp add: s node_vectors_def edge_vectors_def dims_of_indices_append max.assoc)
qed

lemma constructor_dims:
  assumes "\<And>v. int (node_max_index_plus_one r v) = dims_of_indices (iv v)"
    and "\<And>e. int (edge_max_index_plus_one r e) = dims_of_indices (ie e)"
    and "structural_svm_graph_labeling_problem r ss ls = Some p"
  shows "node_dims p = dims_of_indices (concat (map iv (node_vectors ss)))"
    and "edge_dims p = dims_of_indices (concat (map ie (edge_vectors ss)))"
    and "samples p = ss" and "labels p = ls"
    and "is_graph_labeling_problem r ss ls"
  using assms(3) dims_samples_indices[of r iv ie 0 0 ss, OF assms(1,2)]
    dims_of_indices_nonneg[of "concat (map iv (node_vectors ss))"]
    dims_of_indices_nonneg[of "concat (map ie (edge_vectors ss))"]
  by (auto simp: structural_svm_graph_labeling_problem_def split: if_splits prod.splits)

lemma scenario_A_constructed:
  "structural_svm_graph_labeling_problem dense_ops [scenario_A] [scenario_A_labels]
     = Some scenario_A_problem"
  by (simp add: structural_svm_graph_labeling_problem_def is_graph_labeling_problem_def
      is_learning_problem_def eval_defs)

lemma scenario_A_sparse_constructed:
  "structural_svm_graph_labeling_problem sparse_ops [scenario_A_sparse] [scenario_A_labels]
     = Some scenario_A_sparse_problem"
  by (simp add: structural_svm_graph_labeling_problem_def is_graph_labeling_problem_def
      is_learning_problem_def scenario_A_sparse_problem_def scenario_A_sparse_def
      max_index_plus_one_sparse_def eval_defs)

subsection \<open>The sparse accumulation refines the dense one\<close>

lemma length_densify [simp]: "length (densify d v) = d"
  by (simp add: densify_def)

lemma densify_nth:
  "k < d \<Longrightarrow> densify d v ! k = sum_list (map snd (filter (\<lambda>(i, x). i = k) v))"
  by (simp add: densify_def)

lemma densify_Nil [simp]: "densify d [] = replicate d 0"
  by (simp add: densify_def map_replicate_const)








lemma indices_below_append [simp]:
  "indices_below d (a @ b) \<longleftrightarrow> indices_below d a \<and> indices_below d b"
  by (simp add: indices_below_def)







lemma densify_enumerate: "densify (length v) (zip [0..<length v] v) = v"
proof (rule nth_equalityI)
  show "length (densify (length v) (zip [0..<length v] v)) = length v" by simp
next
  fix k assume "k < length (densify (length v) (zip [0..<length v] v))"
  then have k: "k < length v" by simp
  have "map snd (filter (\<lambda>(i, x). i = k) (zip [a..<a + length u] u))
          = (if a \<le> k \<and> k < a + length u then [u ! (k - a)] else [])" for a and u :: "real list"
  proof (induction u arbitrary: a)
    case Nil
    then show ?case by simp
  next
    case (Cons y u)
    have "[a..<Suc (a + length u)] = a # [Suc a..<Suc (a + length u)]"
      by (rule upt_conv_Cons) simp
    then show ?case using Cons.IH[of "Suc a"]
      by (auto simp: Suc_diff_le simp del: upt_Suc)
  qed
  from this[of 0 v] show "densify (length v) (zip [0..<length v] v) ! k = v ! k"
    using k by (simp add: densify_nth)
qed

subsection \<open>What the validator accepts, exactly\<close>

lemma thread_dims_append:
  "thread_dims m d (a @ b) = thread_dims m d a \<bind> (\<lambda>d'. thread_dims m d' b)"
  by (induction a arbitrary: d) (auto simp: Let_def)

lemma thread_dims_off: "\<not> m \<Longrightarrow> thread_dims m d ss = Some d"
  by (induction ss) (auto simp: Let_def)

lemma thread_dims_fixed:
  "d \<noteq> -1 \<Longrightarrow> thread_dims True d ss = (if \<forall>s\<in>set ss. int s = d then Some d else None)"
  by (induction ss) (auto simp: Let_def)

lemma thread_dims_start:
  "thread_dims True (-1) ss \<noteq> None \<longleftrightarrow> (\<exists>c. \<forall>s\<in>set ss. s = c)"
proof (cases ss)
  case Nil
  then show ?thesis by simp
next
  case (Cons s rest)
  have "int s \<noteq> -1" by simp
  from thread_dims_fixed[OF this, of rest] show ?thesis
    by (auto simp: Cons Let_def)
qed

lemma check_edges_thread:
  "check_edges r es ed =
     (if list_all (\<lambda>(j, e). \<not> (ismat r \<and> edge_size r e = 0) \<and> \<not> edge_min r e < 0) es
      then thread_dims (ismat r) ed (map (\<lambda>(j, e). edge_size r e) es) else None)"
proof (induction es arbitrary: ed)
  case Nil
  then show ?case by simp
next
  case (Cons a es)
  obtain j e where a: "a = (j, e)" by (cases a)
  show ?case by (simp add: a Cons.IH Let_def)
qed

lemma check_nodes_step:
  "check_nodes r (x # xs) (nd, ed) =
     (if node_size r (data x) = 0 then None
      else case thread_dims (ismat r) nd [node_size r (data x)] of
             None \<Rightarrow> None
           | Some nd' \<Rightarrow>
               (case check_edges r (nbrs x) ed of
                  None \<Rightarrow> None
                | Some ed' \<Rightarrow> check_nodes r xs (nd', ed')))"
  by (simp add: Let_def)

lemma check_nodes_thread:
  "check_nodes r xs (nd, ed) =
     (if nodes_pass r xs
      then thread_dims (ismat r) nd (node_sizes r xs) \<bind> (\<lambda>nd'.
           thread_dims (ismat r) ed (edge_sizes r xs) \<bind> (\<lambda>ed'. Some (nd', ed')))
      else None)"
proof (induction xs arbitrary: nd ed)
  case Nil
  then show ?case by (simp add: nodes_pass_def node_sizes_def edge_sizes_def)
next
  case (Cons x xs)
  let ?s = "node_size r (data x)"
  let ?es = "map (\<lambda>(j, e). edge_size r e) (nbrs x)"
  have ns: "node_sizes r (x # xs) = [?s] @ node_sizes r xs"
    by (simp add: node_sizes_def)
  have es: "edge_sizes r (x # xs) = ?es @ edge_sizes r xs"
    by (simp add: edge_sizes_def)
  have p: "nodes_pass r (x # xs) \<longleftrightarrow> ?s \<noteq> 0 \<and> edges_pass r (nbrs x) \<and> nodes_pass r xs"
    by (simp add: nodes_pass_def)
  have e: "check_edges r (nbrs x) ed
             = (if edges_pass r (nbrs x) then thread_dims (ismat r) ed ?es else None)"
    by (simp add: check_edges_thread edges_pass_def)
  show ?case
  proof (cases "?s \<noteq> 0 \<and> edges_pass r (nbrs x)")
    case False
    then show ?thesis
      unfolding check_nodes_step p e
      by (auto split: option.splits)
  next
    case True
    show ?thesis
    proof (cases "thread_dims (ismat r) nd [?s]")
      case None
      then show ?thesis
        unfolding check_nodes_step p ns thread_dims_append using True by simp
    next
      case nd1: (Some nd1)
      show ?thesis
      proof (cases "thread_dims (ismat r) ed ?es")
        case None
        then show ?thesis
          unfolding check_nodes_step p e ns es thread_dims_append using True nd1
          by (simp split: bind_splits)
      next
        case (Some ed1)
        then show ?thesis
          unfolding check_nodes_step p e ns es thread_dims_append using True nd1
          by (simp add: Cons.IH)
      qed
    qed
  qed
qed

lemma node_sizes_append: "node_sizes r (a @ b) = node_sizes r a @ node_sizes r b"
  by (simp add: node_sizes_def)

lemma edge_sizes_append: "edge_sizes r (a @ b) = edge_sizes r a @ edge_sizes r b"
  by (simp add: edge_sizes_def)

lemma nodes_pass_append: "nodes_pass r (a @ b) \<longleftrightarrow> nodes_pass r a \<and> nodes_pass r b"
  by (simp add: nodes_pass_def)

lemma check_samples_thread:
  "check_samples r zs (nd, ed) =
     (if list_all (\<lambda>(s, l). number_of_nodes s = length l \<and>
                     \<not> graph_contains_length_one_cycle s) zs \<and>
         nodes_pass r (concat (map fst zs))
      then thread_dims (ismat r) nd (node_sizes r (concat (map fst zs))) \<bind> (\<lambda>nd'.
           thread_dims (ismat r) ed (edge_sizes r (concat (map fst zs))) \<bind>
             (\<lambda>ed'. Some (nd', ed')))
      else None)"
proof (induction zs arbitrary: nd ed)
  case Nil
  then show ?case by (simp add: nodes_pass_def node_sizes_def edge_sizes_def)
next
  case (Cons z zs)
  obtain s l where z: "z = (s, l)" by (cases z)
  show ?case
  proof (cases "number_of_nodes s = length l \<and> \<not> graph_contains_length_one_cycle s \<and>
                nodes_pass r s")
    case False
    then show ?thesis
      by (auto simp: z check_nodes_thread nodes_pass_append)
  next
    case True
    show ?thesis
    proof (cases "thread_dims (ismat r) nd (node_sizes r s)")
      case None
      then show ?thesis using True
        by (simp add: z check_nodes_thread nodes_pass_append node_sizes_append
            thread_dims_append)
    next
      case nd1: (Some nd1)
      show ?thesis
      proof (cases "thread_dims (ismat r) ed (edge_sizes r s)")
        case None
        then show ?thesis using True nd1
          by (simp add: z check_nodes_thread nodes_pass_append node_sizes_append
              edge_sizes_append thread_dims_append split: bind_splits)
      next
        case (Some ed1)
        then show ?thesis using True nd1
          by (simp add: z check_nodes_thread nodes_pass_append node_sizes_append
              edge_sizes_append thread_dims_append Cons.IH)
      qed
    qed
  qed
qed

lemma nodes_pass_vectors:
  "nodes_pass r (concat ss) \<longleftrightarrow>
     list_all (\<lambda>v. node_size r v \<noteq> 0) (node_vectors ss) \<and>
     list_all (\<lambda>e. \<not> (ismat r \<and> edge_size r e = 0) \<and> \<not> edge_min r e < 0) (edge_vectors ss)"
  by (fastforce simp: nodes_pass_def edges_pass_def node_vectors_def edge_vectors_def
      list_all_iff)

lemma node_sizes_vectors: "node_sizes r (concat ss) = map (node_size r) (node_vectors ss)"
  by (simp add: node_sizes_def node_vectors_def)

lemma edge_sizes_vectors: "edge_sizes r (concat ss) = map (edge_size r) (edge_vectors ss)"
  by (simp add: edge_sizes_def edge_vectors_def case_prod_unfold comp_def)

lemma validator_characterisation:
  "is_graph_labeling_problem r ss ls \<longleftrightarrow>
     is_learning_problem ss ls \<and>
     list_all2 (\<lambda>s l. length l = number_of_nodes s) ss ls \<and>
     list_all (\<lambda>s. \<not> graph_contains_length_one_cycle s) ss \<and>
     list_all (\<lambda>v. node_size r v \<noteq> 0) (node_vectors ss) \<and>
     list_all (\<lambda>e. \<not> edge_min r e < 0) (edge_vectors ss) \<and>
     (ismat r \<longrightarrow>
        list_all (\<lambda>e. edge_size r e \<noteq> 0) (edge_vectors ss) \<and>
        (\<exists>d. \<forall>v\<in>set (node_vectors ss). node_size r v = d) \<and>
        (\<exists>d. \<forall>e\<in>set (edge_vectors ss). edge_size r e = d))"
proof (cases "is_learning_problem ss ls")
  case False
  then show ?thesis by (simp add: is_graph_labeling_problem_def)
next
  case True
  then have len: "length ss = length ls" by (simp add: is_learning_problem_def)
  have fst: "map fst (zip ss ls) = ss" using len by simp
  have zipped: "list_all (\<lambda>(s, l). number_of_nodes s = length l \<and>
                     \<not> graph_contains_length_one_cycle s) (zip ss ls)
        \<longleftrightarrow> list_all2 (\<lambda>s l. length l = number_of_nodes s) ss ls \<and>
            list_all (\<lambda>s. \<not> graph_contains_length_one_cycle s) ss"
  proof -
    have "set ss = fst ` set (zip ss ls)" using fst by (metis set_map)
    then show ?thesis using len
      by (fastforce simp: list_all2_iff list_all_iff)
  qed
  have nd: "thread_dims (ismat r) (-1) (map (node_size r) (node_vectors ss)) \<noteq> None
              \<longleftrightarrow> (ismat r \<longrightarrow> (\<exists>d. \<forall>v\<in>set (node_vectors ss). node_size r v = d))"
  proof (cases "ismat r")
    case True
    then show ?thesis using thread_dims_start[of "map (node_size r) (node_vectors ss)"] by auto
  next
    case False
    then show ?thesis by (simp add: thread_dims_off)
  qed
  have edd: "thread_dims (ismat r) (-1) (map (edge_size r) (edge_vectors ss)) \<noteq> None
              \<longleftrightarrow> (ismat r \<longrightarrow> (\<exists>d. \<forall>e\<in>set (edge_vectors ss). edge_size r e = d))"
  proof (cases "ismat r")
    case True
    then show ?thesis using thread_dims_start[of "map (edge_size r) (edge_vectors ss)"] by auto
  next
    case False
    then show ?thesis by (simp add: thread_dims_off)
  qed
  have "is_graph_labeling_problem r ss ls \<longleftrightarrow>
          check_samples r (zip ss ls) (-1, -1) \<noteq> None"
    using True by (simp add: is_graph_labeling_problem_def)
  also have "\<dots> \<longleftrightarrow>
      (list_all2 (\<lambda>s l. length l = number_of_nodes s) ss ls \<and>
       list_all (\<lambda>s. \<not> graph_contains_length_one_cycle s) ss) \<and>
      nodes_pass r (concat ss) \<and>
      thread_dims (ismat r) (-1) (map (node_size r) (node_vectors ss)) \<noteq> None \<and>
      thread_dims (ismat r) (-1) (map (edge_size r) (edge_vectors ss)) \<noteq> None"
    unfolding check_samples_thread fst zipped node_sizes_vectors edge_sizes_vectors
    by (cases "thread_dims (ismat r) (-1) (map (node_size r) (node_vectors ss))";
        cases "thread_dims (ismat r) (-1) (map (edge_size r) (edge_vectors ss))")
       simp_all
  finally have "is_graph_labeling_problem r ss ls \<longleftrightarrow>
      (list_all2 (\<lambda>s l. length l = number_of_nodes s) ss ls \<and>
       list_all (\<lambda>s. \<not> graph_contains_length_one_cycle s) ss) \<and>
      (list_all (\<lambda>v. node_size r v \<noteq> 0) (node_vectors ss) \<and>
       list_all (\<lambda>e. \<not> (ismat r \<and> edge_size r e = 0) \<and> \<not> edge_min r e < 0)
         (edge_vectors ss)) \<and>
      (ismat r \<longrightarrow> (\<exists>d. \<forall>v\<in>set (node_vectors ss). node_size r v = d)) \<and>
      (ismat r \<longrightarrow> (\<exists>d. \<forall>e\<in>set (edge_vectors ss). edge_size r e = d))"
    unfolding nodes_pass_vectors nd edd .
  then show ?thesis
    using True by (auto simp: list_all_iff)
qed

lemma fold_min_negative:
  "fold min xs (a::real) < 0 \<longleftrightarrow> a < 0 \<or> (\<exists>x\<in>set xs. x < 0)"
  by (induction xs arbitrary: a) (auto simp: min_def)

lemma min_dense_nonneg: "\<not> min_dense v < 0 \<longleftrightarrow> list_all (\<lambda>x. 0 \<le> x) v"
  by (cases v) (auto simp: min_dense_def fold_min_negative list_all_iff not_less)

lemma min_sparse_fold_negative:
  "fold (\<lambda>(k, x) temp. if temp > x then x else temp) v (a::real) < 0
     \<longleftrightarrow> a < 0 \<or> \<not> list_all (\<lambda>(k, x). 0 \<le> x) v"
proof (induction v arbitrary: a)
  case Nil
  then show ?case by simp
next
  case (Cons kx v)
  obtain k x where kx: "kx = (k, x)" by (cases kx)
  show ?case by (cases "a > x") (auto simp: kx Cons.IH)
qed

lemma min_sparse_nonneg: "\<not> min_sparse v < 0 \<longleftrightarrow> list_all (\<lambda>(k, x). 0 \<le> x) v"
  by (simp add: min_sparse_def min_sparse_fold_negative)

lemma validator_dense:
  "is_graph_labeling_problem dense_ops ss ls \<longleftrightarrow>
     is_learning_problem ss ls \<and>
     list_all2 (\<lambda>s l. length l = number_of_nodes s) ss ls \<and>
     list_all (\<lambda>s. \<not> graph_contains_length_one_cycle s) ss \<and>
     list_all (\<lambda>e. list_all (\<lambda>x. 0 \<le> x) e) (edge_vectors ss) \<and>
     (\<exists>d. \<forall>v\<in>set (node_vectors ss). length v = d) \<and>
     (\<exists>d. \<forall>e\<in>set (edge_vectors ss). length e = d) \<and>
     list_all (\<lambda>v. v \<noteq> []) (node_vectors ss @ edge_vectors ss)"
proof -
  have ops: "ismat dense_ops" "node_size dense_ops = length" "edge_size dense_ops = length"
    "edge_min dense_ops = min_dense"
    by (simp_all add: dense_ops_def)
  show ?thesis
    unfolding validator_characterisation[of dense_ops ss ls] ops(2-) min_dense_nonneg
    using ops(1) by auto
qed

lemma validator_sparse:
  "is_graph_labeling_problem sparse_ops ss ls \<longleftrightarrow>
     documented_sparse_conditions ss ls \<and> list_all (\<lambda>v. v \<noteq> []) (node_vectors ss)"
proof -
  have ops: "\<not> ismat sparse_ops" "node_size sparse_ops = length"
    "edge_min sparse_ops = min_sparse"
    by (simp_all add: sparse_ops_def)
  show ?thesis
    unfolding validator_characterisation[of sparse_ops ss ls] documented_sparse_conditions_def
      min_sparse_nonneg
    using ops by (simp add: min_sparse_nonneg conj_ac)
qed

subsection \<open>Rounded arithmetic\<close>



lemma joint_dense_edges_fl_exact:
  "joint_dense_edges_fl (\<lambda>x. x) p label i b es psi = joint_dense_edges p label i b es psi"
proof (induction es arbitrary: psi)
  case Nil
  then show ?case by simp
next
  case (Cons a es)
  obtain j e where a: "a = (j, e)" by (cases a)
  have IH: "joint_dense_edges_fl (\<lambda>x. x) p label i b es = joint_dense_edges p label i b es"
    by (rule ext) (rule Cons.IH)
  show ?case by (simp add: a IH mat_sub_fl_def mat_sub_def cong: if_cong)
qed

lemma joint_dense_nodes_fl_exact:
  "joint_dense_nodes_fl (\<lambda>x. x) p label i xs psi = joint_dense_nodes p label i xs psi"
proof (induction xs arbitrary: i psi)
  case Nil
  then show ?case by simp
next
  case (Cons x xs)
  have IH: "joint_dense_nodes_fl (\<lambda>x. x) p label k xs = joint_dense_nodes p label k xs" for k
    by (rule ext) (rule Cons.IH)
  have E: "joint_dense_edges_fl (\<lambda>x. x) p label i b es = joint_dense_edges p label i b es"
    for b es by (rule ext) (rule joint_dense_edges_fl_exact)
  show ?case by (simp add: IH E mat_add_fl_def mat_add_def cong: if_cong)
qed

lemma get_joint_feature_vector_dense_fl_exact:
  "get_joint_feature_vector_dense_fl (\<lambda>x. x) p sample label
     = get_joint_feature_vector_dense p sample label"
  by (simp add: get_joint_feature_vector_dense_fl_def get_joint_feature_vector_dense_def
      joint_dense_nodes_fl_exact)

lemma fold_sum_list_acc:
  "fold (\<lambda>x s. s + f x) xs (a::real) = a + sum_list (map f xs)"
  by (induction xs arbitrary: a) (simp_all add: algebra_simps)

lemma dot_dense_fl_exact: "dot_dense_fl (\<lambda>x. x) m1 m2 = dot_dense m1 m2"
  using fold_sum_list_acc[of "\<lambda>(a, b). a * b" "zip m1 m2" 0]
  by (simp add: dot_dense_fl_def dot_dense_def case_prod_unfold)

lemma dot_sparse_fl_exact: "dot_sparse_fl (\<lambda>x. x) m v = dot_sparse m v"
  using fold_sum_list_acc[of "\<lambda>(k, x). m ! k * x" v 0]
  by (simp add: dot_sparse_fl_def dot_sparse_def case_prod_unfold)


subsection \<open>The output parameters are overwritten\<close>

lemma assign_all_set_size_of:
  "set_size_of psi n = Some psi1 \<Longrightarrow> assign_all psi1 0 = replicate (nat n) 0"
  by (auto simp: set_size_of_def assign_all_def map_replicate_const split: if_splits)

lemma get_joint_feature_vector_dense_into_fresh:
  "get_joint_feature_vector_dense_into p sample label psi
     = get_joint_feature_vector_dense p sample label"
proof (cases "get_num_dimensions p < 0")
  case True
  then show ?thesis
    by (simp add: get_joint_feature_vector_dense_into_def get_joint_feature_vector_dense_def
        set_size_of_def set_size_def)
next
  case False
  then obtain psi1 where 1: "set_size_of psi (get_num_dimensions p) = Some psi1"
    by (simp add: set_size_of_def)
  from assign_all_set_size_of[OF 1] 1 False show ?thesis
    by (simp add: get_joint_feature_vector_dense_into_def get_joint_feature_vector_dense_def
        set_size_def)
qed

lemma get_joint_feature_vector_sparse_into_fresh:
  "get_joint_feature_vector_sparse_into p sample label psi
     = get_joint_feature_vector_sparse p sample label"
  by (simp add: get_joint_feature_vector_sparse_into_def get_joint_feature_vector_sparse_def
      clear_vector_def)

lemma separation_oracle_call_result:
  assumes "\<And>samp l psi. joint_into p samp l psi = joint p samp l"
  shows "separation_oracle_call r joint_into solver p idx w out
           = map_option (\<lambda>(l, psi). \<lparr> loss_out = l, psi_out = psi \<rparr>)
               (separation_oracle r joint solver p idx w)"
  by (auto simp: separation_oracle_call_def separation_oracle_def assms Let_def
      split: bind_splits)

lemma separation_oracle_same_answer:
  assumes "\<forall>g. oracle_potts_graph r p idx w = Some g \<longrightarrow> solver1 g = solver2 g"
  shows "separation_oracle r joint solver1 p idx w = separation_oracle r joint solver2 p idx w"
proof (cases "oracle_potts_graph r p idx w")
  case None
  then show ?thesis
    by (auto simp: separation_oracle_def oracle_potts_graph_def split: bind_splits)
next
  case (Some g)
  with assms have "solver1 g = solver2 g" by simp
  with Some show ?thesis
    by (auto simp: separation_oracle_def oracle_potts_graph_def Let_def split: bind_splits)
qed

section \<open>Claims\<close>

text \<open>
  Claim C1. Scenario A, dense: the problem built from the one-sample dataset of the 3-node
  path graph (edges 0-1 and 1-2, every node vector \<open>[1,0]\<close>, every edge vector \<open>[1]\<close>)
  with labels \<open>[true, true, false]\<close> has \<open>edge_dims = 1\<close> and \<open>node_dims = 2\<close>, and
  \<^verbatim>\<open>get_joint_feature_vector\<close> of that sample and labeling is \<open>[-1, 2, 0]\<close>.
\<close>

theorem C1_scenario_A_psi:
  "structural_svm_graph_labeling_problem dense_ops [scenario_A] [scenario_A_labels] \<bind>
     (\<lambda>p. get_joint_feature_vector_dense p scenario_A scenario_A_labels)
   = Some [-1, 2, 0]"
  by (simp add: structural_svm_graph_labeling_problem_def is_graph_labeling_problem_def
      is_learning_problem_def scenario_A_def scenario_A_labels_def dense_ops_def
      number_of_nodes_def graph_contains_length_one_cycle_def min_dense_def
      get_joint_feature_vector_dense_def set_size_def get_num_dimensions_def nth_opt_def
      rowm_def set_rowm_def range_exp_def rows_ok_def mat_add_def mat_sub_def upto.simps
      eval_nat_numeral)




text \<open>
  Claim C3. When \<^verbatim>\<open>separation_oracle\<close> reaches the MAP solver and the solver returns one
  label per node, the oracle returns, and its loss is the number of nodes at which the
  solver's labeling disagrees with the truth labeling (labels compared as truth values);
  the loss lies between \<open>0\<close> and the node count and is \<open>0\<close> exactly when the two
  labelings agree on every node.
\<close>

theorem C3_loss_is_hamming_distance:
  assumes "at_long (samples p) idx = Some samp"
    and "at_long (labels p) idx = Some truth"
    and "potts_nodes r p w truth 0 samp = Some g"
    and "length (solver g) = number_of_nodes samp"
    and "length truth = number_of_nodes samp"
    and "joint p samp (solver g) = Some psi"
  shows "separation_oracle r joint solver p idx w
           = Some (real (hamming_distance truth (solver g)), psi)
       \<and> 0 \<le> real (hamming_distance truth (solver g))
       \<and> real (hamming_distance truth (solver g)) \<le> real (number_of_nodes samp)
       \<and> (real (hamming_distance truth (solver g)) = 0 \<longleftrightarrow>
            (\<forall>i<number_of_nodes samp. (solver g ! i \<noteq> 0) = (truth ! i \<noteq> 0)))"
proof -
  have len: "length (solver g) \<le> length truth" using assms(4,5) by simp
  have "separation_oracle r joint solver p idx w
           = Some (real (hamming_distance truth (solver g)), psi)"
    using assms(1,2,3,6) figure_out_loss_hamming[OF len]
    by (simp add: separation_oracle_def)
  moreover have "real (hamming_distance truth (solver g)) \<le> real (number_of_nodes samp)"
    using hamming_le[of truth "solver g"] assms(4) by simp
  moreover have "real (hamming_distance truth (solver g)) = 0 \<longleftrightarrow>
            (\<forall>i<number_of_nodes samp. (solver g ! i \<noteq> 0) = (truth ! i \<noteq> 0))"
    using hamming_zero_iff[of truth "solver g"] assms(4) by simp
  ultimately show ?thesis by simp
qed

theorem C3_witness:
  "separation_oracle dense_ops get_joint_feature_vector_dense
     (\<lambda>g. map (\<lambda>x. if 0 < data x then 1 else 0) g) scenario_A_problem 0 [0, 1, 0]
   = Some (3, [-1, 1, 0])"
proof -
  let ?solver = "\<lambda>g::potts_graph. map (\<lambda>x. if 0 < data x then 1 else (0::nat)) g"
  let ?g = "[\<lparr>data = 0, nbrs = [(1, Some 0)]\<rparr>,
             \<lparr>data = 0, nbrs = [(0, None), (2, Some 0)]\<rparr>,
             \<lparr>data = 2, nbrs = [(1, None)]\<rparr>] :: potts_graph"
  have 1: "at_long (samples scenario_A_problem) 0 = Some scenario_A"
    by (simp add: at_long_def scenario_A_problem_def)
  have 2: "at_long (labels scenario_A_problem) 0 = Some scenario_A_labels"
    by (simp add: at_long_def scenario_A_problem_def)
  have 3: "potts_nodes dense_ops scenario_A_problem [0, 1, 0] scenario_A_labels 0 scenario_A
             = Some ?g"
    by (simp add: eval_defs)
  have 4: "length (?solver ?g) = number_of_nodes scenario_A"
    by (simp add: number_of_nodes_def scenario_A_def)
  have 5: "length scenario_A_labels = number_of_nodes scenario_A"
    by (simp add: number_of_nodes_def scenario_A_def scenario_A_labels_def)
  have 6: "get_joint_feature_vector_dense scenario_A_problem scenario_A (?solver ?g)
             = Some [-1, 1, 0]"
    by (simp add: eval_defs)
  have 7: "hamming_distance scenario_A_labels (?solver ?g) = 3"
    by (simp add: hamming_distance_def disagree_def scenario_A_labels_def upt_rec)
  from C3_loss_is_hamming_distance[where solver="?solver" and g="?g"
      and joint=get_joint_feature_vector_dense, OF 1 2 3 4 5 6] show ?thesis
    by (simp only: 7) simp
qed

text \<open>
  Claim C4. Let the weight vector have length \<open>edge_dims + node_dims\<close> with
  \<open>node_dims > 0\<close>, let the truth labeling have one label per node, and let every
  \<^verbatim>\<open>dot\<close> of the loop meet its \<^verbatim>\<open>requires\<close> clause. Then the loop of
  \<^verbatim>\<open>separation_oracle\<close> builds the Potts graph, with one node per node of the sample, and
  the potential of node \<open>i\<close> is the dot product of the node-weight block (the entries of
  the weight vector from \<open>edge_dims\<close> on) with the feature vector of node \<open>i\<close>, minus \<open>1\<close>
  when the truth label of \<open>i\<close> is true and plus \<open>1\<close> when it is false.
\<close>

theorem C4_node_potential:
  assumes "0 \<le> edge_dims p" and "0 < node_dims p"
    and "length w = nat (edge_dims p + node_dims p)"
    and "length truth = number_of_nodes samp"
    and "list_all (\<lambda>x. node_dot r (drop (nat (edge_dims p)) w) (data x) \<noteq> None) samp"
    and "list_all (\<lambda>x. list_all (\<lambda>(j, e). 0 < edge_dims p \<and>
           edge_dot r (take (nat (edge_dims p)) w) e \<noteq> None) (nbrs x)) samp"
  shows "\<exists>g. potts_nodes r p w truth 0 samp = Some g \<and>
           number_of_nodes g = number_of_nodes samp \<and>
           (\<forall>i<number_of_nodes samp.
              \<exists>d. node_dot r (drop (nat (edge_dims p)) w) (data (samp ! i)) = Some d \<and>
                  data (g ! i) = (if truth ! i \<noteq> 0 then d - 1 else d + 1))"
proof -
  have 1: "edge_dims p < int (length w)" using assms(1,2,3) by simp
  have 2: "0 + length samp \<le> length truth" using assms(4) by (simp add: number_of_nodes_def)
  have edge: "rowm w (range_exp 0 (edge_dims p - 1)) \<bind> (\<lambda>wb. edge_dot r wb e) \<noteq> None"
    if "0 < edge_dims p" and "edge_dot r (take (nat (edge_dims p)) w) e \<noteq> None" for e
    using that 1 by (simp add: rowm_edge_block)
  have 3: "list_all (\<lambda>x. list_all (\<lambda>(j, e).
           rowm w (range_exp 0 (edge_dims p - 1)) \<bind> (\<lambda>wb. edge_dot r wb e) \<noteq> None)
             (nbrs x)) samp"
    using assms(6) edge unfolding list_all_iff by fast
  from potts_nodes_potential[OF assms(1) 1 2 assms(5) 3] show ?thesis
    by (simp add: number_of_nodes_def)
qed

theorem C4_witness:
  "\<exists>g. potts_nodes dense_ops scenario_A_problem [0, 1, 0] scenario_A_labels 0 scenario_A
          = Some g \<and>
       number_of_nodes g = number_of_nodes scenario_A \<and>
       (\<forall>i<number_of_nodes scenario_A.
          \<exists>d. node_dot dense_ops (drop (nat (edge_dims scenario_A_problem)) [0, 1, 0])
                 (data (scenario_A ! i)) = Some d \<and>
              data (g ! i) = (if scenario_A_labels ! i \<noteq> 0 then d - 1 else d + 1))"
proof -
  have 1: "0 \<le> edge_dims scenario_A_problem" "0 < node_dims scenario_A_problem"
    by (simp_all add: scenario_A_problem_def)
  have 2: "length [0, 1, 0 :: real]
             = nat (edge_dims scenario_A_problem + node_dims scenario_A_problem)"
    by (simp add: scenario_A_problem_def)
  have 3: "length scenario_A_labels = number_of_nodes scenario_A"
    by (simp add: number_of_nodes_def scenario_A_def scenario_A_labels_def)
  have 4: "list_all (\<lambda>x. node_dot dense_ops
             (drop (nat (edge_dims scenario_A_problem)) [0, 1, 0]) (data x) \<noteq> None) scenario_A"
    by (simp add: scenario_A_problem_def scenario_A_def dense_ops_def dot_dense_def)
  have 5: "list_all (\<lambda>x. list_all (\<lambda>(j, e). 0 < edge_dims scenario_A_problem \<and>
             edge_dot dense_ops (take (nat (edge_dims scenario_A_problem)) [0, 1, 0]) e \<noteq> None)
               (nbrs x)) scenario_A"
    by (simp add: scenario_A_problem_def scenario_A_def dense_ops_def dot_dense_def)
  from C4_node_potential[OF 1 2 3 4 5] show ?thesis .
qed

text \<open>
  Claim C5, at the input where the code departs from it. The sparse dataset of one graph
  with one node carrying the zero vector meets every condition of the claim (and of the
  comment of the function), and \<^verbatim>\<open>is_graph_labeling_problem\<close> returns false: the test
  \<^verbatim>\<open>samples[i].node(j).data.size() == 0\<close> is not guarded by \<open>ismat\<close>. For the dense
  representation the claim holds (\<open>validator_dense\<close>); for the sparse one the code
  demands non-empty node vectors in addition (\<open>validator_sparse\<close>).
\<close>

theorem C5_sparse_zero_node_vector:
  "documented_sparse_conditions zero_node_dataset [[1 :: nat]]
   \<and> \<not> is_graph_labeling_problem sparse_ops zero_node_dataset [[1 :: nat]]"
  by (simp add: documented_sparse_conditions_def zero_node_dataset_def edge_vectors_def
      is_graph_labeling_problem_def is_learning_problem_def sparse_ops_def
      number_of_nodes_def graph_contains_length_one_cycle_def)

text \<open>
  Claim C6, as amended. Under the dense representation (\<open>ismat\<close>) the validator returns
  false whenever a node vector or an edge vector of the dataset has zero length.
  Under the sparse representation the check of the edge vectors is guarded by \<open>ismat\<close>:
  a sparse dataset with an empty edge vector is accepted.
\<close>

theorem C6_dense_rejects_empty_vector:
  assumes "ismat r" and "has_empty_vector r ss"
  shows "\<not> is_graph_labeling_problem r ss ls"
proof
  assume v: "is_graph_labeling_problem r ss ls"
  then have len: "length ss = length ls"
    and "check_samples r (zip ss ls) (-1, -1) \<noteq> None"
    by (auto simp: is_graph_labeling_problem_def is_learning_problem_def split: if_splits)
  then obtain st' where "check_samples r (zip ss ls) (-1, -1) = Some st'" by auto
  from check_samples_nonempty[OF this assms(1)]
  have "\<forall>z\<in>set (zip ss ls). \<forall>x\<in>set (fst z). node_size r (data x) \<noteq> 0 \<and>
          (\<forall>je\<in>set (nbrs x). edge_size r (snd je) \<noteq> 0)"
    by (fastforce simp: list_all_iff)
  moreover have "set ss = fst ` set (zip ss ls)"
    using len by (metis map_fst_zip set_map)
  ultimately have "\<forall>s\<in>set ss. \<forall>x\<in>set s. node_size r (data x) \<noteq> 0 \<and>
          (\<forall>je\<in>set (nbrs x). edge_size r (snd je) \<noteq> 0)"
    by auto
  with assms(2) show False
    by (fastforce simp: has_empty_vector_def list_ex_iff)
qed

theorem C6_witness:
  "\<not> is_graph_labeling_problem dense_ops empty_dense_edge_dataset [[1, 0 :: nat]]"
proof -
  have 1: "ismat dense_ops" by (simp add: dense_ops_def)
  have 2: "has_empty_vector dense_ops empty_dense_edge_dataset"
    by (simp add: has_empty_vector_def empty_dense_edge_dataset_def dense_ops_def)
  from C6_dense_rejects_empty_vector[OF 1 2] show ?thesis .
qed

theorem C6_counterexample:
  "has_empty_vector sparse_ops empty_edge_dataset
   \<and> is_graph_labeling_problem sparse_ops empty_edge_dataset [[1, 0 :: nat]]"
  by (simp add: has_empty_vector_def empty_edge_dataset_def is_graph_labeling_problem_def
      is_learning_problem_def sparse_ops_def number_of_nodes_def
      graph_contains_length_one_cycle_def min_sparse_def)

text \<open>
  Claim C7, as amended. When the constructor accepts a dataset, \<open>node_dims\<close> is one plus
  the maximum feature index observed in the node vectors of all samples, and \<open>0\<close> when no
  index is observed; \<open>edge_dims\<close> is the same for the edge vectors;
  \<^verbatim>\<open>get_num_dimensions\<close> is \<open>edge_dims + node_dims\<close> and \<^verbatim>\<open>get_num_edge_weights\<close> is
  \<open>edge_dims\<close>. The member functions are \<^verbatim>\<open>const\<close>: in the embedding they are functions
  of the problem record and return no new record, so the two values cannot change.
  The claim as stated fails on a dataset without edges, where \<open>edge_dims = 0\<close>.
\<close>

theorem C7_dims_from_indices:
  "(structural_svm_graph_labeling_problem dense_ops ssd lsd = Some pd \<longrightarrow>
      node_dims pd = dims_of_indices (concat (map dense_indices (node_vectors ssd))) \<and>
      edge_dims pd = dims_of_indices (concat (map dense_indices (edge_vectors ssd))) \<and>
      get_num_dimensions pd = edge_dims pd + node_dims pd \<and>
      get_num_edge_weights pd = edge_dims pd)
   \<and> (structural_svm_graph_labeling_problem sparse_ops sss lss = Some ps \<longrightarrow>
      node_dims ps = dims_of_indices (concat (map sparse_indices (node_vectors sss))) \<and>
      edge_dims ps = dims_of_indices (concat (map sparse_indices (edge_vectors sss))) \<and>
      get_num_dimensions ps = edge_dims ps + node_dims ps \<and>
      get_num_edge_weights ps = edge_dims ps)"
proof -
  have d: "int (node_max_index_plus_one dense_ops v) = dims_of_indices (dense_indices v)"
    "int (edge_max_index_plus_one dense_ops v) = dims_of_indices (dense_indices v)" for v
    by (simp_all add: dense_ops_def dims_of_dense_indices)
  have s: "int (node_max_index_plus_one sparse_ops v) = dims_of_indices (sparse_indices v)"
    "int (edge_max_index_plus_one sparse_ops v) = dims_of_indices (sparse_indices v)" for v
    by (simp_all add: sparse_ops_def dims_of_sparse_indices)
  show ?thesis
    using constructor_dims(1,2)[of dense_ops dense_indices dense_indices ssd lsd pd, OF d]
      constructor_dims(1,2)[of sparse_ops sparse_indices sparse_indices sss lss ps, OF s]
    by (simp add: get_num_dimensions_def get_num_edge_weights_def)
qed

theorem C7_witness:
  "node_dims scenario_A_problem
     = dims_of_indices (concat (map dense_indices (node_vectors [scenario_A]))) \<and>
   edge_dims scenario_A_problem
     = dims_of_indices (concat (map dense_indices (edge_vectors [scenario_A]))) \<and>
   get_num_dimensions scenario_A_problem = 3 \<and>
   get_num_edge_weights scenario_A_problem = 1 \<and>
   node_dims scenario_A_sparse_problem
     = dims_of_indices (concat (map sparse_indices (node_vectors [scenario_A_sparse]))) \<and>
   edge_dims scenario_A_sparse_problem
     = dims_of_indices (concat (map sparse_indices (edge_vectors [scenario_A_sparse]))) \<and>
   get_num_dimensions scenario_A_sparse_problem = 2 \<and>
   get_num_edge_weights scenario_A_sparse_problem = 1"
  using C7_dims_from_indices[of "[scenario_A]" "[scenario_A_labels]" scenario_A_problem
      "[scenario_A_sparse]" "[scenario_A_labels]" scenario_A_sparse_problem]
  by (simp add: scenario_A_constructed scenario_A_sparse_constructed)
     (simp add: scenario_A_problem_def scenario_A_sparse_problem_def)

theorem C7_counterexample:
  "map_option edge_dims
     (structural_svm_graph_labeling_problem dense_ops isolated_node_dataset [[1 :: nat]])
     = Some 0
   \<and> concat (map dense_indices (edge_vectors isolated_node_dataset)) = []
   \<and> map_option edge_dims
     (structural_svm_graph_labeling_problem dense_ops isolated_node_dataset [[1 :: nat]])
     \<noteq> Some (one_plus_max_index
               (concat (map dense_indices (edge_vectors isolated_node_dataset))))"
  by (simp add: structural_svm_graph_labeling_problem_def is_graph_labeling_problem_def
      is_learning_problem_def isolated_node_dataset_def dense_ops_def number_of_nodes_def
      graph_contains_length_one_cycle_def edge_vectors_def one_plus_max_index_def)

text \<open>
  Claim C8. Two calls of \<^verbatim>\<open>separation_oracle\<close> on the same problem, with the same sample
  index and the same weight vector, in which the MAP solver gives the same answer on the
  Potts graph of the call, leave the same loss and the same feature vector in the output
  parameters, whatever the output parameters held before each call; in particular a
  second call on the variables that the first call has just written leaves them as they
  are. The feature vectors being equal, so are their inner products with the weight
  vector. Stated for the dense and for the sparse representation.
\<close>

theorem C8_oracle_deterministic:
  assumes d: "\<forall>g. oracle_potts_graph dense_ops pd idx w = Some g \<longrightarrow> solver1 g = solver2 g"
    and s: "\<forall>g. oracle_potts_graph sparse_ops ps idx' w' = Some g \<longrightarrow> solver1' g = solver2' g"
  shows "separation_oracle_call_dense solver1 pd idx w out1
           = separation_oracle_call_dense solver2 pd idx w out2
       \<and> separation_oracle_call_sparse solver1' ps idx' w' out1'
           = separation_oracle_call_sparse solver2' ps idx' w' out2'
       \<and> (\<forall>out. separation_oracle_call_dense solver1 pd idx w out1 = Some out \<longrightarrow>
             separation_oracle_call_dense solver2 pd idx w out = Some out)
       \<and> (\<forall>out. separation_oracle_call_sparse solver1' ps idx' w' out1' = Some out \<longrightarrow>
             separation_oracle_call_sparse solver2' ps idx' w' out = Some out)
       \<and> map_option (\<lambda>out. dot_dense w (psi_out out))
             (separation_oracle_call_dense solver1 pd idx w out1)
           = map_option (\<lambda>out. dot_dense w (psi_out out))
               (separation_oracle_call_dense solver2 pd idx w out2)
       \<and> map_option (\<lambda>out. dot_sparse w' (psi_out out))
             (separation_oracle_call_sparse solver1' ps idx' w' out1')
           = map_option (\<lambda>out. dot_sparse w' (psi_out out))
               (separation_oracle_call_sparse solver2' ps idx' w' out2')"
proof -
  have dense: "separation_oracle_call_dense solver1 pd idx w a
                 = separation_oracle_call_dense solver2 pd idx w b" for a b
    unfolding separation_oracle_call_dense_def
    by (simp add: separation_oracle_call_result[where joint = get_joint_feature_vector_dense]
        get_joint_feature_vector_dense_into_fresh
        separation_oracle_same_answer[OF d])
  have sparse: "separation_oracle_call_sparse solver1' ps idx' w' a
                 = separation_oracle_call_sparse solver2' ps idx' w' b" for a b
    unfolding separation_oracle_call_sparse_def
    by (simp add: separation_oracle_call_result[where joint = get_joint_feature_vector_sparse]
        get_joint_feature_vector_sparse_into_fresh
        separation_oracle_same_answer[OF s])
  have "separation_oracle_call_dense solver2 pd idx w out = Some out"
    if "separation_oracle_call_dense solver1 pd idx w out1 = Some out" for out
    using that dense[of out1 out] by simp
  moreover have "separation_oracle_call_sparse solver2' ps idx' w' out = Some out"
    if "separation_oracle_call_sparse solver1' ps idx' w' out1' = Some out" for out
    using that sparse[of out1' out] by simp
  ultimately show ?thesis
    using dense[of out1 out2] sparse[of out1' out2'] by simp
qed

theorem C8_witness:
  "separation_oracle_call_dense (\<lambda>g. map (\<lambda>x. if 0 < data x then 1 else 0) g)
       scenario_A_problem 0 [0, 1, 0] \<lparr> loss_out = 42, psi_out = [9, 9, 9, 9, 9] \<rparr>
     = separation_oracle_call_dense (\<lambda>g. if length g = 3 then [0, 0, 1] else [])
         scenario_A_problem 0 [0, 1, 0] \<lparr> loss_out = - 1, psi_out = [] \<rparr>
   \<and> separation_oracle_call_sparse (\<lambda>g. map (\<lambda>x. if 0 < data x then 1 else 0) g)
       scenario_A_sparse_problem 0 [0, 1] \<lparr> loss_out = 42, psi_out = [(7, 7)] \<rparr>
     = separation_oracle_call_sparse (\<lambda>g. map (\<lambda>x. if 0 < data x then 1 else 0) g)
         scenario_A_sparse_problem 0 [0, 1] \<lparr> loss_out = 0, psi_out = [] \<rparr>
   \<and> separation_oracle_call_dense (\<lambda>g. map (\<lambda>x. if 0 < data x then 1 else 0) g)
       scenario_A_problem 0 [0, 1, 0] \<lparr> loss_out = 42, psi_out = [9, 9, 9, 9, 9] \<rparr>
     = Some \<lparr> loss_out = 3, psi_out = [- 1, 1, 0] \<rparr>"
proof -
  let ?s1 = "\<lambda>g :: potts_graph. map (\<lambda>x. if 0 < data x then 1 else (0::nat)) g"
  let ?s2 = "\<lambda>g :: potts_graph. if length g = 3 then [0, 0, 1] else ([] :: nat list)"
  have g: "oracle_potts_graph dense_ops scenario_A_problem 0 [0, 1, 0]
             = Some [\<lparr>data = 0, nbrs = [(1, Some 0)]\<rparr>,
                     \<lparr>data = 0, nbrs = [(0, None), (2, Some 0)]\<rparr>,
                     \<lparr>data = 2, nbrs = [(1, None)]\<rparr>]"
    by (simp add: oracle_potts_graph_def eval_defs)
  have d: "\<forall>g. oracle_potts_graph dense_ops scenario_A_problem 0 [0, 1, 0] = Some g \<longrightarrow>
             ?s1 g = ?s2 g"
    by (simp add: g)
  have s: "\<forall>g. oracle_potts_graph sparse_ops scenario_A_sparse_problem 0 [0, 1] = Some g \<longrightarrow>
             ?s1 g = ?s1 g"
    by simp
  have v: "separation_oracle_call_dense ?s1 scenario_A_problem 0 [0, 1, 0]
             \<lparr> loss_out = 42, psi_out = [9, 9, 9, 9, 9] \<rparr>
           = Some \<lparr> loss_out = 3, psi_out = [- 1, 1, 0] \<rparr>"
    by (simp add: separation_oracle_call_dense_def separation_oracle_call_def
        get_joint_feature_vector_dense_into_def set_size_of_def assign_all_def eval_defs)
  from C8_oracle_deterministic[where ?solver1.0 = "?s1" and ?solver2.0 = "?s2"
      and solver1' = "?s1" and solver2' = "?s1", OF d s,
      of "\<lparr> loss_out = 42, psi_out = [9, 9, 9, 9, 9] \<rparr>"
         "\<lparr> loss_out = - 1, psi_out = [] \<rparr>"
         "\<lparr> loss_out = 42, psi_out = [(7, 7)] \<rparr>"
         "\<lparr> loss_out = 0, psi_out = [] \<rparr>"] v
  show ?thesis by simp
qed

text \<open>
  Claim C9. The code reads a label only as zero or non-zero. If two labelings have the
  same truth values, the dense and the sparse \<^verbatim>\<open>get_joint_feature_vector\<close> return the
  same result for both. If the truth labels of the problem are replaced by labels with
  the same truth values, and the solver's labels likewise, \<^verbatim>\<open>separation_oracle\<close> returns
  the same loss and the same feature vector.
\<close>

theorem C9_labels_only_as_truth_values:
  assumes l: "map is_true l = map is_true l'"
    and lsd: "map (map is_true) (labels pd) = map (map is_true) lsd"
    and lss: "map (map is_true) (labels ps) = map (map is_true) lss"
    and sol: "\<forall>g. map is_true (solver g) = map is_true (solver' g)"
  shows "get_joint_feature_vector_dense pd sd l = get_joint_feature_vector_dense pd sd l'
       \<and> get_joint_feature_vector_sparse ps ss l = get_joint_feature_vector_sparse ps ss l'
       \<and> separation_oracle_dense solver' (pd\<lparr>labels := lsd\<rparr>) idx w
           = separation_oracle_dense solver pd idx w
       \<and> separation_oracle_sparse solver' (ps\<lparr>labels := lss\<rparr>) idx' w'
           = separation_oracle_sparse solver ps idx' w'"
proof -
  have d: "get_joint_feature_vector_dense (p\<lparr>labels := ls\<rparr>) s b = get_joint_feature_vector_dense p s a"
    if "map is_true a = map is_true b" for p ls s and a b :: "'a list"
    using joint_dense_nodes_truth_value[OF that]
    by (simp add: get_joint_feature_vector_dense_def get_num_dimensions_def
        joint_dense_nodes_labels_update)
  have s: "get_joint_feature_vector_sparse (p\<lparr>labels := ls\<rparr>) s b = get_joint_feature_vector_sparse p s a"
    if "map is_true a = map is_true b" for p ls s and a b :: "'a list"
    using joint_sparse_nodes_truth_value[OF that]
    by (simp add: get_joint_feature_vector_sparse_def joint_sparse_nodes_labels_update)
  have "get_joint_feature_vector_dense pd sd l = get_joint_feature_vector_dense pd sd l'"
    using joint_dense_nodes_truth_value[OF l]
    by (simp add: get_joint_feature_vector_dense_def)
  moreover have "get_joint_feature_vector_sparse ps ss l = get_joint_feature_vector_sparse ps ss l'"
    using joint_sparse_nodes_truth_value[OF l]
    by (simp add: get_joint_feature_vector_sparse_def)
  moreover have "separation_oracle_dense solver' (pd\<lparr>labels := lsd\<rparr>) idx w
           = separation_oracle_dense solver pd idx w"
    unfolding separation_oracle_dense_def
  proof (rule separation_oracle_truth_value[OF lsd])
    show "map is_true (solver g) = map is_true (solver' g)" for g using sol by simp
    show "get_joint_feature_vector_dense (pd\<lparr>labels := lsd\<rparr>) samp b
            = get_joint_feature_vector_dense pd samp a"
      if "map is_true a = map is_true b" for samp and a b :: "'a list"
      using that by (rule d)
  qed
  moreover have "separation_oracle_sparse solver' (ps\<lparr>labels := lss\<rparr>) idx' w'
           = separation_oracle_sparse solver ps idx' w'"
    unfolding separation_oracle_sparse_def
  proof (rule separation_oracle_truth_value[OF lss])
    show "map is_true (solver g) = map is_true (solver' g)" for g using sol by simp
    show "get_joint_feature_vector_sparse (ps\<lparr>labels := lss\<rparr>) samp b
            = get_joint_feature_vector_sparse ps samp a"
      if "map is_true a = map is_true b" for samp and a b :: "'a list"
      using that by (rule s)
  qed
  ultimately show ?thesis by simp
qed

theorem C9_witness:
  "get_joint_feature_vector_dense scenario_A_problem scenario_A [1, 1, 0 :: nat]
     = get_joint_feature_vector_dense scenario_A_problem scenario_A [2, 5, 0]
   \<and> get_joint_feature_vector_sparse scenario_A_sparse_problem scenario_A_sparse [1, 1, 0 :: nat]
     = get_joint_feature_vector_sparse scenario_A_sparse_problem scenario_A_sparse [2, 5, 0]
   \<and> separation_oracle_dense (\<lambda>g. map (\<lambda>x. if 0 < data x then 7 else 0) g)
       (scenario_A_problem\<lparr>labels := [[3, 4, 0]]\<rparr>) 0 [0, 1, 0]
     = separation_oracle_dense (\<lambda>g. map (\<lambda>x. if 0 < data x then 1 else 0) g)
       scenario_A_problem 0 [0, 1, 0]
   \<and> separation_oracle_sparse (\<lambda>g. map (\<lambda>x. if 0 < data x then 7 else 0) g)
       (scenario_A_sparse_problem\<lparr>labels := [[9, 1, 0]]\<rparr>) 0 [0, 1]
     = separation_oracle_sparse (\<lambda>g. map (\<lambda>x. if 0 < data x then 1 else 0) g)
       scenario_A_sparse_problem 0 [0, 1]"
proof -
  have 1: "map is_true [1, 1, 0 :: nat] = map is_true [2, 5, 0 :: nat]"
    by (simp add: is_true_def)
  have 2: "map (map is_true) (labels scenario_A_problem) = map (map is_true) [[3, 4, 0 :: nat]]"
    by (simp add: is_true_def scenario_A_problem_def scenario_A_labels_def)
  have 3: "map (map is_true) (labels scenario_A_sparse_problem)
             = map (map is_true) [[9, 1, 0 :: nat]]"
    by (simp add: is_true_def scenario_A_sparse_problem_def scenario_A_labels_def)
  have 4: "\<forall>g :: potts_graph. map is_true (map (\<lambda>x. if 0 < data x then 1 else (0::nat)) g)
             = map is_true (map (\<lambda>x. if 0 < data x then 7 else (0::nat)) g)"
    by (simp add: is_true_def)
  from C9_labels_only_as_truth_values[OF 1 2 3 4] show ?thesis .
qed

text \<open>
  Claim C10. For the all-false labeling (one label \<open>0\<close> per node, on a graph whose
  neighbour indices are node indices) the dense \<^verbatim>\<open>get_joint_feature_vector\<close> returns the
  zero vector of length \<open>edge_dims + node_dims\<close> and the sparse one returns the empty
  vector; the inner product of either with a weight vector is \<open>0\<close>.
\<close>

theorem C10_all_false_labeling:
  assumes "list_all (\<lambda>x. x = 0) label"
    and "length label = number_of_nodes sd" and "neighbors_in_range sd"
    and "length label = number_of_nodes ss" and "neighbors_in_range ss"
    and "0 \<le> get_num_dimensions pd"
    and "length w = nat (get_num_dimensions pd)"
  shows "get_joint_feature_vector_dense pd sd label
           = Some (replicate (nat (get_num_dimensions pd)) 0)
       \<and> get_joint_feature_vector_sparse ps ss label = Some []
       \<and> get_joint_feature_vector_dense pd sd label \<bind> dot_dense w = Some 0
       \<and> get_joint_feature_vector_sparse ps ss label \<bind> dot_sparse w' = Some 0"
proof -
  have nd: "list_all (\<lambda>x. list_all (\<lambda>(j, e). j < length label) (nbrs x)) sd"
    using assms(2,3) by (simp add: neighbors_in_range_def number_of_nodes_def)
  have ns: "list_all (\<lambda>x. list_all (\<lambda>(j, e). j < length label) (nbrs x)) ss"
    using assms(4,5) by (simp add: neighbors_in_range_def number_of_nodes_def)
  have d: "get_joint_feature_vector_dense pd sd label
             = Some (replicate (nat (get_num_dimensions pd)) 0)"
    using assms(2,6) joint_dense_nodes_all_false[OF assms(1) _ nd, of 0]
    by (simp add: get_joint_feature_vector_dense_def set_size_def number_of_nodes_def)
  have s: "get_joint_feature_vector_sparse ps ss label = Some []"
    using assms(4) joint_sparse_nodes_all_false[OF assms(1) _ ns, of 0]
    by (simp add: get_joint_feature_vector_sparse_def number_of_nodes_def)
  show ?thesis
    using dot_dense_zero[OF assms(7)] by (simp add: d s dot_sparse_def)
qed

theorem C10_witness:
  "get_joint_feature_vector_dense scenario_A_problem scenario_A [0, 0, 0 :: nat]
     = Some (replicate (nat (get_num_dimensions scenario_A_problem)) 0)
   \<and> get_joint_feature_vector_sparse scenario_A_sparse_problem scenario_A_sparse [0, 0, 0 :: nat]
     = Some []
   \<and> get_joint_feature_vector_dense scenario_A_problem scenario_A [0, 0, 0 :: nat]
       \<bind> dot_dense [5, 6, 7] = Some 0
   \<and> get_joint_feature_vector_sparse scenario_A_sparse_problem scenario_A_sparse [0, 0, 0 :: nat]
       \<bind> dot_sparse [1, 2] = Some 0"
proof -
  have 1: "list_all (\<lambda>x. x = 0) [0, 0, 0 :: nat]" by simp
  have 2: "length [0, 0, 0 :: nat] = number_of_nodes scenario_A"
    by (simp add: number_of_nodes_def scenario_A_def)
  have 3: "neighbors_in_range scenario_A"
    by (simp add: neighbors_in_range_def scenario_A_def)
  have 4: "length [0, 0, 0 :: nat] = number_of_nodes scenario_A_sparse"
    by (simp add: number_of_nodes_def scenario_A_sparse_def)
  have 5: "neighbors_in_range scenario_A_sparse"
    by (simp add: neighbors_in_range_def scenario_A_sparse_def)
  have 6: "0 \<le> get_num_dimensions scenario_A_problem"
    by (simp add: get_num_dimensions_def scenario_A_problem_def)
  have 7: "length [5, 6, 7 :: real] = nat (get_num_dimensions scenario_A_problem)"
    by (simp add: get_num_dimensions_def scenario_A_problem_def)
  from C10_all_false_labeling[OF 1 2 3 4 5 6 7] show ?thesis .
qed

end
